theory Spec2Isabelle
  imports Complex_Main "HOL-Library.Word"
begin

section \<open>Strings\<close>

text \<open>
  A JavaScript string is a sequence of UTF-16 code units; \<open>+\<close> on strings is
  concatenation of the sequences.
\<close>

type_synonym js_string = "16 word list"

text \<open>
  \<open>String.prototype.trim\<close> strips the ECMAScript WhiteSpace and LineTerminator code
  points from both ends.
\<close>

definition isWhiteSpace :: "16 word \<Rightarrow> bool" where
  "isWhiteSpace c \<longleftrightarrow>
     c \<in> {0x0009, 0x000A, 0x000B, 0x000C, 0x000D, 0x0020, 0x00A0, 0x1680,
          0x2000, 0x2001, 0x2002, 0x2003, 0x2004, 0x2005, 0x2006, 0x2007,
          0x2008, 0x2009, 0x200A, 0x2028, 0x2029, 0x202F, 0x205F, 0x3000, 0xFEFF}"

definition trim :: "js_string \<Rightarrow> js_string" where
  "trim s = rev (dropWhile isWhiteSpace (rev (dropWhile isWhiteSpace s)))"

section \<open>The transcript of the call (App)\<close>

datatype Role = User | Model

text \<open>
  \<open>interface ChatMessage\<close>. The fields \<open>id\<close> and \<open>text\<close> carry a prime because the
  plain names are taken.
\<close>

record ChatMessage =
  id' :: js_string
  role :: Role
  text' :: js_string
  timestamp :: nat
  isFinal :: bool

text \<open>
  The \<open>onMessage\<close> callback that \<open>handleStartCall\<close> hands to \<open>connect\<close>: the updater
  given to \<open>setMessages\<close>, as a function of the previous list. \<open>newId\<close> stands for
  \<open>Date.now().toString() + Math.random()\<close> and \<open>date\<close> for \<open>new Date()\<close>, the two
  readings of the environment. \<open>newMsgs[newMsgs.length - 1]\<close> is \<open>undefined\<close>, hence
  falsy, exactly when the list is empty.
\<close>

definition onMessage ::
  "js_string \<Rightarrow> nat \<Rightarrow> js_string \<Rightarrow> bool \<Rightarrow> bool \<Rightarrow> ChatMessage list \<Rightarrow> ChatMessage list" where
  "onMessage newId date txt isUser fin prev =
     (let newMsgs = prev;
          lastMsgIndex = length newMsgs - 1
      in if newMsgs \<noteq> [] \<and> role (last newMsgs) = (if isUser then User else Model)
            \<and> \<not> isFinal (last newMsgs)
         then newMsgs[lastMsgIndex :=
                (last newMsgs)\<lparr>text' := text' (last newMsgs) @ txt, isFinal := fin\<rparr>]
         else if trim txt = [] then prev
         else newMsgs @ [\<lparr>id' = newId, role = (if isUser then User else Model),
                          text' = txt, timestamp = date, isFinal = fin\<rparr>])"

text \<open>A fragment as it reaches the callback, with the two environment readings.\<close>

record Fragment =
  fragId :: js_string
  fragDate :: nat
  fragText :: js_string
  fragIsUser :: bool
  fragIsFinal :: bool

definition deliver :: "Fragment \<Rightarrow> ChatMessage list \<Rightarrow> ChatMessage list" where
  "deliver f prev =
     onMessage (fragId f) (fragDate f) (fragText f) (fragIsUser f) (fragIsFinal f) prev"

fun feed :: "Fragment list \<Rightarrow> ChatMessage list \<Rightarrow> ChatMessage list" where
  "feed [] prev = prev"
| "feed (f # fs) prev = feed fs (deliver f prev)"

text \<open>
  There is a pending utterance of the speaker: the last message is of that speaker and
  not final.
\<close>

definition pending :: "bool \<Rightarrow> ChatMessage list \<Rightarrow> bool" where
  "pending isUser msgs \<longleftrightarrow>
     msgs \<noteq> [] \<and> role (last msgs) = (if isUser then User else Model) \<and> \<not> isFinal (last msgs)"

section \<open>Browser objects used by the service\<close>

datatype error =
  NotAllowedError | InvalidCharacterError | DecodeError | TypeError | RangeError
  | InvalidStateError | ChannelError

text \<open>
  An \<open>AudioBuffer\<close>: its \<open>length\<close> in sample frames and its sample rate. The sample
  values are left out: the service reads \<open>duration\<close> only.
\<close>

record AudioBuffer =
  numFrames :: nat
  sampleRate :: nat

definition duration :: "AudioBuffer \<Rightarrow> real" where
  "duration b = real (numFrames b) / real (sampleRate b)"

text \<open>
  Modelled from the spec: \<open>decodeAudioData\<close> of \<open>utils/audioUtils\<close> is imported by
  the service but is not among the sources. The spec's \<open>decodeToPlayableBuffer\<close>
  interprets the bytes as 16-bit PCM at the target sample rate, one channel, without
  resampling, and fails with a \<open>DecodeError\<close> if the byte length is not a positive even
  number. The \<open>await\<close> of its promise is the suspension point of \<open>handleServerMessage\<close>.
\<close>

definition decodeAudioData :: "8 word list \<Rightarrow> nat \<Rightarrow> error + AudioBuffer" where
  "decodeAudioData bytes rate =
     (if length bytes = 0 \<or> odd (length bytes) then Inl DecodeError
      else Inr \<lparr>numFrames = length bytes div 2, sampleRate = rate\<rparr>)"

text \<open>
  The listener \<open>() => { this.sources.delete(source) }\<close>, a closure over the node it is
  registered on.
\<close>

datatype Listener = SourcesDelete nat

text \<open>
  An \<open>AudioBufferSourceNode\<close> on which \<open>start\<close> has been called. \<open>startedAt\<close> is the
  \<open>when\<close> argument of \<open>start\<close>, on the clock of the output context.
\<close>

record AudioBufferSourceNode =
  buffer :: AudioBuffer
  connectedTo :: nat
  endedListeners :: "Listener list"
  startedAt :: real
  stopped :: bool

datatype ConsoleEntry = ConsoleLog string | ConsoleError string error

datatype Callback = OnOpen | OnClose | OnError | OnMessage js_string bool bool

section \<open>The service\<close>

text \<open>
  \<open>class GeminiLiveService\<close>: first the fields of the class, under their names
  (\<open>ai\<close> is constant and left out), then the part of the browser the service acts on.
  Objects are identified by numbers: contexts, gain node, stream, session and capture
  nodes take the next free number of \<open>allocated\<close>; a buffer source node is its index
  in \<open>nodes\<close>. Times are seconds as real numbers; the rounding of JavaScript's
  doubles is not modelled.
\<close>

record GeminiLiveService =
  session :: "nat option"
  inputAudioContext :: "nat option"
  outputAudioContext :: "nat option"
  stream :: "nat option"
  processor :: "nat option"
  source :: "nat option"
  nextStartTime :: real
  outputNode :: "nat option"
  sources :: "nat set"
  allocated :: nat
  closedContexts :: "nat set"
  stoppedStreams :: "nat set"
  disconnectedNodes :: "nat set"
  closeRequests :: "nat list"
  getUserMediaCalls :: nat
  nodes :: "AudioBufferSourceNode list"
  console :: "ConsoleEntry list"
  calls :: "Callback list"

text \<open>The field initialisers of the class: a service on which nothing was called yet.\<close>

definition newService :: GeminiLiveService where
  "newService =
     \<lparr>session = None, inputAudioContext = None, outputAudioContext = None, stream = None,
      processor = None, source = None, nextStartTime = 0, outputNode = None, sources = {},
      allocated = 0, closedContexts = {}, stoppedStreams = {}, disconnectedNodes = {},
      closeRequests = [], getUserMediaCalls = 0, nodes = [], console = [], calls = []\<rparr>"

subsection \<open>connect\<close>

datatype getUserMedia = Granted | Rejected error

text \<open>
  \<open>connect\<close> up to its \<open>await\<close>: both contexts and the gain node are created, then
  \<open>getUserMedia\<close> is called, once.
\<close>

definition connect_begin :: "GeminiLiveService \<Rightarrow> GeminiLiveService" where
  "connect_begin s =
     s\<lparr>inputAudioContext := Some (allocated s),
       outputAudioContext := Some (allocated s + 1),
       outputNode := Some (allocated s + 2),
       allocated := allocated s + 3,
       getUserMediaCalls := getUserMediaCalls s + 1\<rparr>"

text \<open>
  \<open>connect\<close> after the \<open>await\<close>: a rejection is logged and thrown again; otherwise the
  stream is kept, the channel is opened and its promise is kept as the session. The
  first component of the result is the error \<open>connect\<close> rejects with, if it does.
\<close>

definition connect_resume ::
  "getUserMedia \<Rightarrow> GeminiLiveService \<Rightarrow> error option \<times> GeminiLiveService" where
  "connect_resume r s =
     (case r of
        Rejected err \<Rightarrow>
          (Some err, s\<lparr>console := console s @ [ConsoleError ''Microphone access denied'' err]\<rparr>)
      | Granted \<Rightarrow>
          (None, s\<lparr>stream := Some (allocated s),
                   session := Some (allocated s + 1),
                   allocated := allocated s + 2\<rparr>))"

definition connect ::
  "getUserMedia \<Rightarrow> GeminiLiveService \<Rightarrow> error option \<times> GeminiLiveService" where
  "connect r s = connect_resume r (connect_begin s)"

text \<open>
  \<open>startInputStreaming\<close>: the two capture nodes are created and connected. What the
  \<open>onaudioprocess\<close> handler does with each block of samples (the volume, the blob sent
  to the session) touches no field of the service and is left out.
\<close>

definition startInputStreaming :: "GeminiLiveService \<Rightarrow> GeminiLiveService" where
  "startInputStreaming s =
     (if inputAudioContext s = None \<or> stream s = None then s
      else s\<lparr>source := Some (allocated s),
             processor := Some (allocated s + 1),
             allocated := allocated s + 2\<rparr>)"

text \<open>The \<open>onopen\<close> callback of the channel.\<close>

definition onopen :: "GeminiLiveService \<Rightarrow> GeminiLiveService" where
  "onopen s =
     (let s1 = s\<lparr>console := console s @ [ConsoleLog ''Gemini Live Session Opened'']\<rparr>;
          s2 = startInputStreaming s1
      in s2\<lparr>calls := calls s2 @ [OnOpen]\<rparr>)"

text \<open>The \<open>onclose\<close> and \<open>onerror\<close> callbacks of the channel.\<close>

definition onclose :: "GeminiLiveService \<Rightarrow> GeminiLiveService" where
  "onclose s =
     s\<lparr>console := console s @ [ConsoleLog ''Gemini Live Session Closed''],
       calls := calls s @ [OnClose]\<rparr>"

definition onerror :: "GeminiLiveService \<Rightarrow> GeminiLiveService" where
  "onerror s =
     s\<lparr>console := console s @ [ConsoleError ''Gemini Live Session Error'' ChannelError],
       calls := calls s @ [OnError]\<rparr>"

subsection \<open>Inbound messages\<close>

text \<open>The fields of a \<open>LiveServerMessage\<close> that the service reads; every one is optional.\<close>

datatype Transcription = Transcription (transcriptionText: "js_string option")

datatype Blob = Blob (data: "js_string option")

datatype Part = Part (inlineData: "Blob option")

datatype Content = Content (parts: "Part list option")

record LiveServerContent =
  inputTranscription :: "Transcription option"
  outputTranscription :: "Transcription option"
  turnComplete :: "bool option"
  modelTurn :: "Content option"
  interrupted :: "bool option"

record LiveServerMessage =
  serverContent :: "LiveServerContent option"

text \<open>\<open>message.serverContent?.modelTurn?.parts?.[0]?.inlineData?.data\<close>\<close>

definition base64Audio :: "LiveServerMessage \<Rightarrow> js_string option" where
  "base64Audio m =
     (case serverContent m of None \<Rightarrow> None
      | Some sc \<Rightarrow>
     (case modelTurn sc of None \<Rightarrow> None
      | Some c \<Rightarrow>
     (case parts c of None \<Rightarrow> None
      | Some [] \<Rightarrow> None
      | Some (p # ps) \<Rightarrow>
     (case inlineData p of None \<Rightarrow> None
      | Some b \<Rightarrow> data b))))"

text \<open>\<open>message.serverContent?.interrupted\<close> as a condition.\<close>

definition isInterrupted :: "LiveServerMessage \<Rightarrow> bool" where
  "isInterrupted m \<longleftrightarrow>
     (case serverContent m of None \<Rightarrow> False | Some sc \<Rightarrow> interrupted sc = Some True)"

text \<open>The two transcription branches: \<open>onMessage(text ?? '', isUser, !!turnComplete)\<close>.\<close>

definition transcriptions :: "LiveServerMessage \<Rightarrow> GeminiLiveService \<Rightarrow> GeminiLiveService" where
  "transcriptions m s =
     (case serverContent m of None \<Rightarrow> s
      | Some sc \<Rightarrow>
          (let s1 = (case inputTranscription sc of None \<Rightarrow> s
                     | Some t \<Rightarrow>
                         s\<lparr>calls := calls s @
                             [OnMessage (case transcriptionText t of None \<Rightarrow> [] | Some x \<Rightarrow> x)
                                True (turnComplete sc = Some True)]\<rparr>)
           in (case outputTranscription sc of None \<Rightarrow> s1
               | Some t \<Rightarrow>
                   s1\<lparr>calls := calls s1 @
                        [OnMessage (case transcriptionText t of None \<Rightarrow> [] | Some x \<Rightarrow> x)
                           False (turnComplete sc = Some True)]\<rparr>)))"

text \<open>\<open>this.sources.forEach(src => src.stop())\<close>, on the store of nodes.\<close>

definition stopAll :: "nat set \<Rightarrow> AudioBufferSourceNode list \<Rightarrow> AudioBufferSourceNode list" where
  "stopAll S ns = map (\<lambda>i. if i \<in> S then (ns ! i)\<lparr>stopped := True\<rparr> else ns ! i) [0..<length ns]"

text \<open>
  The body of the interruption branch. \<open>stop\<close> raises only on a node that was never
  started, and a node enters \<open>sources\<close> after its \<open>start\<close>, so \<open>stopAll\<close> has no
  error case.
\<close>

definition interrupt :: "GeminiLiveService \<Rightarrow> GeminiLiveService" where
  "interrupt s =
     s\<lparr>console := console s @ [ConsoleLog ''Model interrupted''],
       nodes := stopAll (sources s) (nodes s),
       sources := {},
       nextStartTime := 0\<rparr>"

definition handleInterruption :: "LiveServerMessage \<Rightarrow> GeminiLiveService \<Rightarrow> GeminiLiveService" where
  "handleInterruption m s = (if isInterrupted m then interrupt s else s)"

text \<open>The \<open>catch\<close> of the audio branch.\<close>

definition caught :: "error \<Rightarrow> GeminiLiveService \<Rightarrow> GeminiLiveService" where
  "caught e s = s\<lparr>console := console s @ [ConsoleError ''Error decoding audio response'' e]\<rparr>"

text \<open>
  The \<open>try\<close> block after the \<open>await\<close>, with a decoded buffer. The fields are read
  again here: \<open>createBufferSource\<close> on a context field that is \<open>null\<close> by now is a
  \<open>TypeError\<close>, and \<open>start\<close> rejects a negative time with a \<open>RangeError\<close>; both end in
  the \<open>catch\<close>. The node is entered in the store when \<open>start\<close> has succeeded.
\<close>

definition schedule :: "AudioBuffer \<Rightarrow> GeminiLiveService \<Rightarrow> GeminiLiveService" where
  "schedule audioBuffer s =
     (case outputAudioContext s of None \<Rightarrow> caught TypeError s
      | Some ctx \<Rightarrow>
     (case outputNode s of None \<Rightarrow> caught TypeError s
      | Some out \<Rightarrow>
          if nextStartTime s < 0 then caught RangeError s
          else
            s\<lparr>nodes := nodes s @
                 [\<lparr>buffer = audioBuffer, connectedTo = out,
                   endedListeners = [SourcesDelete (length (nodes s))],
                   startedAt = nextStartTime s, stopped = False\<rparr>],
              nextStartTime := nextStartTime s + duration audioBuffer,
              sources := insert (length (nodes s)) (sources s)\<rparr>))"

text \<open>
  \<open>handleServerMessage\<close> up to its \<open>await\<close>. \<open>decode\<close> is the base64 decoder of
  \<open>utils/audioUtils\<close>, not among the sources, taken as a parameter (\<open>None\<close>: it throws);
  \<open>now\<close> is \<open>outputAudioContext.currentTime\<close> at the call. The second component is
  the outcome of the decoding the handler is suspended on; it is \<open>None\<close> when the handler
  has run to its end without suspending (no audio branch, or \<open>decode\<close> threw inside
  the \<open>try\<close>).
\<close>

definition handleServerMessage_begin ::
  "(js_string \<Rightarrow> 8 word list option) \<Rightarrow> real \<Rightarrow> LiveServerMessage \<Rightarrow> GeminiLiveService
     \<Rightarrow> GeminiLiveService \<times> (error + AudioBuffer) option" where
  "handleServerMessage_begin decode now m s =
     (let s1 = transcriptions m s
      in case base64Audio m of
           None \<Rightarrow> (handleInterruption m s1, None)
         | Some b \<Rightarrow>
             if b \<noteq> [] \<and> outputAudioContext s1 \<noteq> None \<and> outputNode s1 \<noteq> None
             then (let s2 = s1\<lparr>nextStartTime := max (nextStartTime s1) now\<rparr>
                   in case decode b of
                        None \<Rightarrow> (handleInterruption m (caught InvalidCharacterError s2), None)
                      | Some bytes \<Rightarrow> (s2, Some (decodeAudioData bytes 24000)))
             else (handleInterruption m s1, None))"

text \<open>\<open>handleServerMessage\<close> from the \<open>await\<close> on, with the outcome of the decoding.\<close>

definition handleServerMessage_resume ::
  "LiveServerMessage \<Rightarrow> error + AudioBuffer \<Rightarrow> GeminiLiveService \<Rightarrow> GeminiLiveService" where
  "handleServerMessage_resume m r s =
     handleInterruption m (case r of Inl e \<Rightarrow> caught e s | Inr audioBuffer \<Rightarrow> schedule audioBuffer s)"

text \<open>\<open>handleServerMessage\<close> when nothing else runs during its \<open>await\<close>.\<close>

definition handleServerMessage ::
  "(js_string \<Rightarrow> 8 word list option) \<Rightarrow> real \<Rightarrow> LiveServerMessage \<Rightarrow> GeminiLiveService
     \<Rightarrow> GeminiLiveService" where
  "handleServerMessage decode now m s =
     (case handleServerMessage_begin decode now m s of
        (s', None) \<Rightarrow> s'
      | (s', Some r) \<Rightarrow> handleServerMessage_resume m r s')"

text \<open>The \<open>ended\<close> event of node \<open>h\<close>: its listeners run.\<close>

fun runListener :: "Listener \<Rightarrow> GeminiLiveService \<Rightarrow> GeminiLiveService" where
  "runListener (SourcesDelete h) s = s\<lparr>sources := sources s - {h}\<rparr>"

definition dispatchEnded :: "nat \<Rightarrow> GeminiLiveService \<Rightarrow> GeminiLiveService" where
  "dispatchEnded h s =
     (if h < length (nodes s) then fold runListener (endedListeners (nodes s ! h)) s else s)"

text \<open>Messages handled one after the other, each with the clock reading at its arrival.\<close>

fun run ::
  "(js_string \<Rightarrow> 8 word list option) \<Rightarrow> (real \<times> LiveServerMessage) list \<Rightarrow> GeminiLiveService
     \<Rightarrow> GeminiLiveService" where
  "run decode [] s = s"
| "run decode ((now, m) # ms) s = run decode ms (handleServerMessage decode now m s)"

text \<open>
  The buffer the audio branch obtains from a message: the first part's inline data,
  non-empty, through \<open>decode\<close> and \<open>decodeAudioData\<close> at 24000 Hz.
\<close>

definition segment :: "(js_string \<Rightarrow> 8 word list option) \<Rightarrow> LiveServerMessage \<Rightarrow> AudioBuffer option" where
  "segment decode m =
     (case base64Audio m of None \<Rightarrow> None
      | Some b \<Rightarrow>
          if b = [] then None
          else (case decode b of None \<Rightarrow> None
                | Some bytes \<Rightarrow>
                    (case decodeAudioData bytes 24000 of Inl e \<Rightarrow> None | Inr buf \<Rightarrow> Some buf)))"

text \<open>
  The handler of one message as the steps the event loop runs: the part up to the
  \<open>await\<close> and, later, the part after it with the outcome of the decoding. Line 92
  starts the handler without waiting for it, so steps of other handlers, and \<open>ended\<close>
  events of nodes, may come between the two.
\<close>

datatype Step =
    Begin real LiveServerMessage
  | Resume LiveServerMessage "error + AudioBuffer"
  | Ended nat

fun step ::
  "(js_string \<Rightarrow> 8 word list option) \<Rightarrow> Step \<Rightarrow> GeminiLiveService \<Rightarrow> GeminiLiveService" where
  "step decode (Begin now m) s = fst (handleServerMessage_begin decode now m s)"
| "step decode (Resume m r) s = handleServerMessage_resume m r s"
| "step decode (Ended h) s = dispatchEnded h s"

fun steps ::
  "(js_string \<Rightarrow> 8 word list option) \<Rightarrow> Step list \<Rightarrow> GeminiLiveService \<Rightarrow> GeminiLiveService" where
  "steps decode [] s = s"
| "steps decode (x # xs) s = steps decode xs (step decode x s)"

text \<open>
  Whether a step belongs to a message that signals interruption, the clock reading of a
  first part, the buffer of a second.
\<close>

fun stepInterrupted :: "Step \<Rightarrow> bool" where
  "stepInterrupted (Begin now m) = isInterrupted m"
| "stepInterrupted (Resume m r) = isInterrupted m"
| "stepInterrupted (Ended h) = False"

fun stepClock :: "Step \<Rightarrow> real list" where
  "stepClock (Begin now m) = [now]"
| "stepClock (Resume m r) = []"
| "stepClock (Ended h) = []"

fun stepBuffer :: "Step \<Rightarrow> AudioBuffer list" where
  "stepBuffer (Resume m (Inr buf)) = [buf]"
| "stepBuffer (Resume m (Inl e)) = []"
| "stepBuffer (Begin now m) = []"
| "stepBuffer (Ended h) = []"

subsection \<open>disconnect\<close>

text \<open>
  \<open>disconnect\<close> awaits the closing of each context and sets the field to \<open>null\<close> only after
  the \<open>await\<close>; it is cut there. \<open>Progress\<close> says how far a part got: to the end, to a
  rejection, or to an \<open>await\<close>.
\<close>

datatype Await = InputClose | OutputClose

datatype Progress = Done | Failed error | Suspended Await

text \<open>
  Steps 1 to 3 of \<open>disconnect\<close>. The request to close the session is made in a \<open>then\<close>
  callback and not waited for; it is recorded in \<open>closeRequests\<close>.
\<close>

definition releaseCapture :: "GeminiLiveService \<Rightarrow> GeminiLiveService" where
  "releaseCapture s =
     (let s1 = (case session s of None \<Rightarrow> s
                | Some p \<Rightarrow> s\<lparr>closeRequests := closeRequests s @ [p]\<rparr>);
          s2 = (case processor s1 of None \<Rightarrow> s1
                | Some n \<Rightarrow> s1\<lparr>disconnectedNodes := insert n (disconnectedNodes s1),
                                processor := None\<rparr>);
          s3 = (case source s2 of None \<Rightarrow> s2
                | Some n \<Rightarrow> s2\<lparr>disconnectedNodes := insert n (disconnectedNodes s2),
                                source := None\<rparr>)
      in (case stream s3 of None \<Rightarrow> s3
          | Some t \<Rightarrow> s3\<lparr>stoppedStreams := insert t (stoppedStreams s3),
                          stream := None\<rparr>))"

text \<open>Step 5 of \<open>disconnect\<close>.\<close>

definition cleanupQueuedAudio :: "GeminiLiveService \<Rightarrow> GeminiLiveService" where
  "cleanupQueuedAudio s =
     s\<lparr>nodes := stopAll (sources s) (nodes s), sources := {}, nextStartTime := 0\<rparr>"

text \<open>
  \<open>disconnect\<close> from \<open>if (this.outputAudioContext)\<close> on. \<open>close\<close> on a context that is
  closed, or being closed, rejects with an \<open>InvalidStateError\<close>, and the \<open>await\<close> throws
  it; otherwise the context counts as closed from the call on and the handler is
  suspended with the field still set.
\<close>

definition disconnect_output :: "GeminiLiveService \<Rightarrow> Progress \<times> GeminiLiveService" where
  "disconnect_output s =
     (case outputAudioContext s of None \<Rightarrow> (Done, cleanupQueuedAudio s)
      | Some c \<Rightarrow>
          if c \<in> closedContexts s then (Failed InvalidStateError, s)
          else (Suspended OutputClose, s\<lparr>closedContexts := insert c (closedContexts s)\<rparr>))"

text \<open>\<open>disconnect\<close> up to its first \<open>await\<close>, or to its end when it meets none.\<close>

definition disconnect_begin :: "GeminiLiveService \<Rightarrow> Progress \<times> GeminiLiveService" where
  "disconnect_begin s =
     (let s4 = releaseCapture s
      in case inputAudioContext s4 of None \<Rightarrow> disconnect_output s4
         | Some c \<Rightarrow>
             if c \<in> closedContexts s4 then (Failed InvalidStateError, s4)
             else (Suspended InputClose, s4\<lparr>closedContexts := insert c (closedContexts s4)\<rparr>))"

text \<open>\<open>disconnect\<close> from an \<open>await\<close> on, to the next \<open>await\<close> or to its end.\<close>

definition disconnect_resume :: "Await \<Rightarrow> GeminiLiveService \<Rightarrow> Progress \<times> GeminiLiveService" where
  "disconnect_resume a s =
     (case a of
        InputClose \<Rightarrow> disconnect_output (s\<lparr>inputAudioContext := None\<rparr>)
      | OutputClose \<Rightarrow> (Done, cleanupQueuedAudio (s\<lparr>outputAudioContext := None\<rparr>)))"

text \<open>\<open>disconnect\<close> when nothing else runs during its \<open>await\<close>s.\<close>

definition disconnect :: "GeminiLiveService \<Rightarrow> Progress \<times> GeminiLiveService" where
  "disconnect s =
     (case disconnect_begin s of
        (Suspended a, s1) \<Rightarrow>
          (case disconnect_resume a s1 of
             (Suspended b, s2) \<Rightarrow> disconnect_resume b s2
           | (Done, s2) \<Rightarrow> (Done, s2)
           | (Failed e, s2) \<Rightarrow> (Failed e, s2))
      | (Done, s1) \<Rightarrow> (Done, s1)
      | (Failed e, s1) \<Rightarrow> (Failed e, s1))"

subsection \<open>States of a service\<close>

text \<open>
  The states a service goes through: from a new service, by the steps above in any
  order, with the handlers of \<open>connect\<close>, \<open>handleServerMessage\<close> and \<open>disconnect\<close> cut
  at their \<open>await\<close>s, so that other steps may run in between.
\<close>

inductive reachable :: "GeminiLiveService \<Rightarrow> bool" where
  new: "reachable newService"
| connect_begin: "reachable s \<Longrightarrow> reachable (connect_begin s)"
| connect_resume: "reachable s \<Longrightarrow> reachable (snd (connect_resume r s))"
| onopen: "reachable s \<Longrightarrow> reachable (onopen s)"
| onclose: "reachable s \<Longrightarrow> reachable (onclose s)"
| onerror: "reachable s \<Longrightarrow> reachable (onerror s)"
| message_begin: "reachable s \<Longrightarrow> reachable (fst (handleServerMessage_begin decode now m s))"
| message_resume: "reachable s \<Longrightarrow> reachable (handleServerMessage_resume m r s)"
| ended: "reachable s \<Longrightarrow> reachable (dispatchEnded h s)"
| disconnect_begin: "reachable s \<Longrightarrow> reachable (snd (disconnect_begin s))"
| disconnect_resume: "reachable s \<Longrightarrow> reachable (snd (disconnect_resume a s))"


text \<open>The contexts held in the fields are open, and the two fields hold different ones.\<close>

definition contextsOpen :: "GeminiLiveService \<Rightarrow> bool" where
  "contextsOpen s \<longleftrightarrow>
     (case inputAudioContext s of None \<Rightarrow> True
      | Some c \<Rightarrow> c \<notin> closedContexts s \<and> outputAudioContext s \<noteq> Some c)
     \<and> (case outputAudioContext s of None \<Rightarrow> True
        | Some c \<Rightarrow> c \<notin> closedContexts s)"

text \<open>Every object the service holds or has released is one the browser has created.\<close>

definition knownObjects :: "GeminiLiveService \<Rightarrow> bool" where
  "knownObjects s \<longleftrightarrow>
     closedContexts s \<subseteq> {..<allocated s}
     \<and> stoppedStreams s \<subseteq> {..<allocated s}
     \<and> set (closeRequests s) \<subseteq> {..<allocated s}
     \<and> set_option (inputAudioContext s) \<subseteq> {..<allocated s}
     \<and> set_option (outputAudioContext s) \<subseteq> {..<allocated s}
     \<and> set_option (stream s) \<subseteq> {..<allocated s}
     \<and> set_option (session s) \<subseteq> {..<allocated s}"

text \<open>The fields and browser objects that message handling and \<open>ended\<close> events leave alone.\<close>

definition held ::
  "GeminiLiveService \<Rightarrow>
     nat option \<times> nat option \<times> nat option \<times> nat option \<times> nat option \<times> nat option
     \<times> nat option \<times> nat \<times> nat set \<times> nat set \<times> nat set \<times> nat list \<times> nat" where
  "held s =
     (session s, inputAudioContext s, outputAudioContext s, stream s, processor s, source s,
      outputNode s, allocated s, closedContexts s, stoppedStreams s, disconnectedNodes s,
      closeRequests s, getUserMediaCalls s)"

subsection \<open>Example inputs\<close>

text \<open>
  The base64 decoder on the two strings used below: \<open>AAAAAA==\<close> is four zero bytes,
  two sample frames; \<open>AAAA\<close> is three bytes, not a whole number of samples.
\<close>

definition exampleDecode :: "js_string \<Rightarrow> 8 word list option" where
  "exampleDecode b =
     (if b = [0x41, 0x41, 0x41, 0x41, 0x41, 0x41, 0x3D, 0x3D] then Some [0, 0, 0, 0]
      else if b = [0x41, 0x41, 0x41, 0x41] then Some [0, 0, 0]
      else None)"

definition emptyContent :: LiveServerContent where
  "emptyContent =
     \<lparr>inputTranscription = None, outputTranscription = None, turnComplete = None,
      modelTurn = None, interrupted = None\<rparr>"

text \<open>A message whose model turn has the given parts, and the interruption signal.\<close>

definition audioMessage :: "Part list \<Rightarrow> LiveServerMessage" where
  "audioMessage ps = \<lparr>serverContent = Some (emptyContent\<lparr>modelTurn := Some (Content (Some ps))\<rparr>)\<rparr>"

definition interruptMessage :: LiveServerMessage where
  "interruptMessage = \<lparr>serverContent = Some (emptyContent\<lparr>interrupted := Some True\<rparr>)\<rparr>"

text \<open>A message that signals interruption and carries audio in its model turn as well.\<close>

definition interruptAudioMessage :: "Part list \<Rightarrow> LiveServerMessage" where
  "interruptAudioMessage ps =
     \<lparr>serverContent =
        Some (emptyContent\<lparr>modelTurn := Some (Content (Some ps)), interrupted := Some True\<rparr>)\<rparr>"

definition goodPart :: Part where
  "goodPart = Part (Some (Blob (Some [0x41, 0x41, 0x41, 0x41, 0x41, 0x41, 0x3D, 0x3D])))"

definition oddPart :: Part where
  "oddPart = Part (Some (Blob (Some [0x41, 0x41, 0x41, 0x41])))"

text \<open>A service after a \<open>connect\<close> that was granted the microphone.\<close>

definition connectedService :: GeminiLiveService where
  "connectedService = snd (connect Granted newService)"

text \<open>The same service after a first audio message, handled at clock reading 1.\<close>

definition playingService :: GeminiLiveService where
  "playingService = handleServerMessage exampleDecode 1 (audioMessage [goodPart]) connectedService"

section \<open>The transcript: accumulation of fragments\<close>

lemma onMessage_append:
  "pending u prev \<Longrightarrow>
   onMessage i d t u f prev =
     butlast prev @ [(last prev)\<lparr>text' := text' (last prev) @ t, isFinal := f\<rparr>]"
  by (cases prev rule: rev_cases) (auto simp: onMessage_def pending_def Let_def)

lemma onMessage_new:
  "\<not> pending u prev \<Longrightarrow> trim t \<noteq> [] \<Longrightarrow>
   onMessage i d t u f prev =
     prev @ [\<lparr>id' = i, role = (if u then User else Model), text' = t, timestamp = d,
              isFinal = f\<rparr>]"
  by (auto simp: onMessage_def pending_def Let_def)

lemma feed_append: "feed (fs @ gs) prev = feed gs (feed fs prev)"
  by (induction fs arbitrary: prev) auto

lemma feed_pending:
  "\<forall>f \<in> set fs. fragIsUser f = u \<and> \<not> fragIsFinal f \<Longrightarrow>
   role msg = (if u then User else Model) \<Longrightarrow> \<not> isFinal msg \<Longrightarrow>
   feed fs (prev @ [msg]) = prev @ [msg\<lparr>text' := text' msg @ concat (map fragText fs)\<rparr>]"
proof (induction fs arbitrary: msg)
  case Nil
  then show ?case by simp
next
  case (Cons f fs)
  have p: "pending u (prev @ [msg])"
    using Cons.prems by (simp add: pending_def)
  have "deliver f (prev @ [msg]) =
          prev @ [msg\<lparr>text' := text' msg @ fragText f, isFinal := False\<rparr>]"
    using Cons.prems p by (simp add: deliver_def onMessage_append)
  then show ?case
    using Cons.IH [of "msg\<lparr>text' := text' msg @ fragText f, isFinal := False\<rparr>"] Cons.prems
    by simp
qed

section \<open>The playback scheduler\<close>

lemma length_stopAll [simp]: "length (stopAll S ns) = length ns"
  by (simp add: stopAll_def)

lemma nth_stopAll:
  "i < length ns \<Longrightarrow> stopAll S ns ! i = (if i \<in> S then (ns ! i)\<lparr>stopped := True\<rparr> else ns ! i)"
  by (simp add: stopAll_def)

lemma stopAll_empty [simp]: "stopAll {} ns = ns"
  by (simp add: stopAll_def map_nth)

lemma transcriptions_calls: "\<exists>cs. transcriptions m s = s\<lparr>calls := cs\<rparr>"
proof (cases "serverContent m")
  case None
  then have "transcriptions m s = s\<lparr>calls := calls s\<rparr>"
    by (simp add: transcriptions_def)
  then show ?thesis by blast
next
  case sc: (Some sc)
  show ?thesis
  proof (cases "inputTranscription sc")
    case i: None
    show ?thesis
    proof (cases "outputTranscription sc")
      case None
      then have "transcriptions m s = s\<lparr>calls := calls s\<rparr>"
        using sc i by (simp add: transcriptions_def)
      then show ?thesis by blast
    next
      case (Some t)
      then show ?thesis using sc i
        by (simp add: transcriptions_def) (rule exI, rule refl)
    qed
  next
    case i: (Some t)
    show ?thesis
    proof (cases "outputTranscription sc")
      case None
      then show ?thesis using sc i
        by (simp add: transcriptions_def) (rule exI, rule refl)
    next
      case (Some t')
      then show ?thesis using sc i
        by (simp add: transcriptions_def) (rule exI, rule refl)
    qed
  qed
qed

lemma transcriptions_fields [simp]:
  "nodes (transcriptions m s) = nodes s"
  "nextStartTime (transcriptions m s) = nextStartTime s"
  "sources (transcriptions m s) = sources s"
  "outputAudioContext (transcriptions m s) = outputAudioContext s"
  "outputNode (transcriptions m s) = outputNode s"
  "console (transcriptions m s) = console s"
  using transcriptions_calls [of m s] by auto

lemma segment_SomeD:
  "segment decode m = Some buf \<Longrightarrow>
   \<exists>b bytes. base64Audio m = Some b \<and> b \<noteq> [] \<and> decode b = Some bytes
      \<and> decodeAudioData bytes 24000 = Inr buf"
  by (auto simp: segment_def split: option.splits if_splits sum.splits)

lemma handleServerMessage_begin_enqueue:
  assumes "segment decode m = Some buf" "outputAudioContext s \<noteq> None" "outputNode s \<noteq> None"
  shows "handleServerMessage_begin decode now m s =
           ((transcriptions m s)\<lparr>nextStartTime := max (nextStartTime s) now\<rparr>, Some (Inr buf))"
proof -
  from segment_SomeD [OF assms(1)] obtain b bytes where
    b: "base64Audio m = Some b" "b \<noteq> []" "decode b = Some bytes"
      "decodeAudioData bytes 24000 = Inr buf"
    by blast
  show ?thesis using b assms(2,3)
    by (simp add: handleServerMessage_begin_def Let_def)
qed

lemma handleServerMessage_enqueue:
  assumes "segment decode m = Some buf" "outputAudioContext s \<noteq> None" "outputNode s \<noteq> None"
  shows "handleServerMessage decode now m s =
           handleInterruption m
             (schedule buf ((transcriptions m s)\<lparr>nextStartTime := max (nextStartTime s) now\<rparr>))"
  by (simp add: handleServerMessage_def handleServerMessage_begin_enqueue [OF assms]
      handleServerMessage_resume_def)

lemma enqueue_step:
  assumes seg: "segment decode m = Some buf" and ni: "\<not> isInterrupted m"
    and ctx: "outputAudioContext s \<noteq> None" and out: "outputNode s \<noteq> None" and now: "0 \<le> now"
  shows "handleServerMessage decode now m s =
           (transcriptions m s)
             \<lparr>nodes := nodes s @
                 [\<lparr>buffer = buf, connectedTo = the (outputNode s),
                   endedListeners = [SourcesDelete (length (nodes s))],
                   startedAt = max (nextStartTime s) now, stopped = False\<rparr>],
              nextStartTime := max (nextStartTime s) now + duration buf,
              sources := insert (length (nodes s)) (sources s)\<rparr>"
proof -
  obtain cs where t: "transcriptions m s = s\<lparr>calls := cs\<rparr>"
    using transcriptions_calls by blast
  obtain c where c: "outputAudioContext s = Some c" using ctx by blast
  obtain g where g: "outputNode s = Some g" using out by blast
  show ?thesis
    unfolding handleServerMessage_enqueue [OF seg ctx out]
    using now ni by (simp add: handleInterruption_def schedule_def t c g)
qed

lemma run_append: "run decode (ms @ ns) s = run decode ns (run decode ms s)"
  by (induction ms arbitrary: s) auto

lemma enqueue_run:
  assumes ms: "\<forall>x \<in> set ms. 0 \<le> fst x \<and> segment decode (snd x) \<noteq> None \<and> \<not> isInterrupted (snd x)"
    and ctx: "outputAudioContext s \<noteq> None" and out: "outputNode s \<noteq> None"
  shows "outputAudioContext (run decode ms s) = outputAudioContext s
       \<and> outputNode (run decode ms s) = outputNode s
       \<and> take (length (nodes s)) (nodes (run decode ms s)) = nodes s
       \<and> length (nodes (run decode ms s)) = length (nodes s) + length ms
       \<and> nextStartTime (run decode ms s) =
           (if ms = [] then nextStartTime s
            else startedAt (last (nodes (run decode ms s)))
                 + duration (buffer (last (nodes (run decode ms s)))))
       \<and> (\<forall>i < length ms.
             Some (buffer (nodes (run decode ms s) ! (length (nodes s) + i))) = segment decode (snd (ms ! i))
           \<and> startedAt (nodes (run decode ms s) ! (length (nodes s) + i)) =
               max (if i = 0 then nextStartTime s
                    else startedAt (nodes (run decode ms s) ! (length (nodes s) + i - 1))
                         + duration (buffer (nodes (run decode ms s) ! (length (nodes s) + i - 1))))
                   (fst (ms ! i)))"
  using ms
proof (induction ms rule: rev_induct)
  case Nil
  then show ?case by simp
next
  case (snoc x ms)
  let ?s1 = "run decode ms s"
  obtain now m where x: "x = (now, m)" by (cases x)
  from snoc.prems x obtain buf where m: "0 \<le> now" "segment decode m = Some buf" "\<not> isInterrupted m"
    by auto
  have IH: "outputAudioContext ?s1 = outputAudioContext s"
    "outputNode ?s1 = outputNode s"
    "take (length (nodes s)) (nodes ?s1) = nodes s"
    "length (nodes ?s1) = length (nodes s) + length ms"
    "nextStartTime ?s1 =
           (if ms = [] then nextStartTime s
            else startedAt (last (nodes ?s1)) + duration (buffer (last (nodes ?s1))))"
    "\<forall>i < length ms.
             Some (buffer (nodes ?s1 ! (length (nodes s) + i))) = segment decode (snd (ms ! i))
           \<and> startedAt (nodes ?s1 ! (length (nodes s) + i)) =
               max (if i = 0 then nextStartTime s
                    else startedAt (nodes ?s1 ! (length (nodes s) + i - 1))
                         + duration (buffer (nodes ?s1 ! (length (nodes s) + i - 1))))
                   (fst (ms ! i))"
    using snoc.IH snoc.prems by auto
  have c1: "outputAudioContext ?s1 \<noteq> None" "outputNode ?s1 \<noteq> None"
    using IH(1,2) ctx out by auto
  define nd where "nd = \<lparr>buffer = buf, connectedTo = the (outputNode ?s1),
                   endedListeners = [SourcesDelete (length (nodes ?s1))],
                   startedAt = max (nextStartTime ?s1) now, stopped = False\<rparr>"
  have step: "run decode (ms @ [x]) s =
           (transcriptions m ?s1)
             \<lparr>nodes := nodes ?s1 @ [nd],
              nextStartTime := max (nextStartTime ?s1) now + duration buf,
              sources := insert (length (nodes ?s1)) (sources ?s1)\<rparr>"
    unfolding nd_def by (simp add: run_append x enqueue_step [OF m(2) m(3) c1 m(1)])
  have nodes': "nodes (run decode (ms @ [x]) s) = nodes ?s1 @ [nd]"
    by (simp add: step)
  have last_old: "last (nodes ?s1) = nodes ?s1 ! (length (nodes s) + length ms - 1)"
    if ne: "ms \<noteq> []"
  proof -
    have "nodes ?s1 \<noteq> []" using IH(4) ne by auto
    then have "last (nodes ?s1) = nodes ?s1 ! (length (nodes ?s1) - 1)"
      by (rule last_conv_nth)
    then show ?thesis using IH(4) by simp
  qed
  have p1: "outputAudioContext (run decode (ms @ [x]) s) = outputAudioContext s"
    using IH(1) by (simp add: step)
  have p2: "outputNode (run decode (ms @ [x]) s) = outputNode s"
    using IH(2) by (simp add: step)
  have p3: "take (length (nodes s)) (nodes (run decode (ms @ [x]) s)) = nodes s"
    using IH(3,4) by (simp add: nodes')
  have p4: "length (nodes (run decode (ms @ [x]) s)) = length (nodes s) + length (ms @ [x])"
    using IH(4) by (simp add: nodes')
  have p5: "nextStartTime (run decode (ms @ [x]) s) =
              startedAt (last (nodes (run decode (ms @ [x]) s)))
              + duration (buffer (last (nodes (run decode (ms @ [x]) s))))"
    by (simp add: step nd_def)
  have p6: "Some (buffer (nodes (run decode (ms @ [x]) s) ! (length (nodes s) + i))) =
              segment decode (snd ((ms @ [x]) ! i))
           \<and> startedAt (nodes (run decode (ms @ [x]) s) ! (length (nodes s) + i)) =
               max (if i = 0 then nextStartTime s
                    else startedAt (nodes (run decode (ms @ [x]) s) ! (length (nodes s) + i - 1))
                         + duration (buffer (nodes (run decode (ms @ [x]) s) ! (length (nodes s) + i - 1))))
                   (fst ((ms @ [x]) ! i))"
    if i: "i < length (ms @ [x])" for i
  proof (cases "i < length ms")
    case True
    then have a: "nodes (run decode (ms @ [x]) s) ! (length (nodes s) + i) = nodes ?s1 ! (length (nodes s) + i)"
      using IH(4) by (simp add: nodes' nth_append)
    have b: "i \<noteq> 0 \<Longrightarrow> nodes (run decode (ms @ [x]) s) ! (length (nodes s) + i - 1) = nodes ?s1 ! (length (nodes s) + i - 1)"
      using IH(4) True by (simp add: nodes' nth_append)
    show ?thesis using IH(6) True a b by (auto simp: nth_append)
  next
    case False
    then have ie: "i = length ms" using i by simp
    have a: "nodes (run decode (ms @ [x]) s) ! (length (nodes s) + i) = nd"
      using IH(4) by (simp add: nodes' nth_append ie)
    have b: "ms \<noteq> [] \<Longrightarrow> nodes (run decode (ms @ [x]) s) ! (length (nodes s) + i - 1) = last (nodes ?s1)"
      using IH(4) last_old by (simp add: nodes' nth_append ie)
    show ?thesis
    proof (cases "ms = []")
      case True
      then show ?thesis using a IH(5) ie by (simp add: nd_def m(2) x)
    next
      case False
      then show ?thesis using a b IH(5) ie by (simp add: nd_def m(2) x)
    qed
  qed
  show ?case using p1 p2 p3 p4 p5 p6 by simp
qed

lemma duration_nonneg [simp]: "0 \<le> duration b"
  by (simp add: duration_def)

lemma connectedService_eq:
  "connectedService =
     \<lparr>session = Some 4, inputAudioContext = Some 0, outputAudioContext = Some 1, stream = Some 3,
      processor = None, source = None, nextStartTime = 0, outputNode = Some 2, sources = {},
      allocated = 5, closedContexts = {}, stoppedStreams = {}, disconnectedNodes = {},
      closeRequests = [], getUserMediaCalls = 1, nodes = [], console = [], calls = []\<rparr>"
  by (simp add: connectedService_def connect_def connect_begin_def connect_resume_def newService_def)

lemma segment_goodPart:
  "segment exampleDecode (audioMessage (goodPart # ps)) = Some \<lparr>numFrames = 2, sampleRate = 24000\<rparr>"
  by (simp add: segment_def base64Audio_def audioMessage_def goodPart_def exampleDecode_def
      decodeAudioData_def emptyContent_def)

lemma isInterrupted_audioMessage: "\<not> isInterrupted (audioMessage ps)"
  by (simp add: isInterrupted_def audioMessage_def emptyContent_def)

lemma handleServerMessage_skip:
  assumes "base64Audio m = None \<or> base64Audio m = Some [] \<or> outputAudioContext s = None
           \<or> outputNode s = None"
  shows "handleServerMessage decode now m s = handleInterruption m (transcriptions m s)"
  using assms
  by (auto simp: handleServerMessage_def handleServerMessage_begin_def Let_def
      split: option.splits)

lemma handleServerMessage_failure:
  assumes "base64Audio m = Some b" "b \<noteq> []" "segment decode m = None"
    and "outputAudioContext s \<noteq> None" "outputNode s \<noteq> None"
  shows "\<exists>e. handleServerMessage decode now m s =
           handleInterruption m
             (caught e ((transcriptions m s)\<lparr>nextStartTime := max (nextStartTime s) now\<rparr>))"
proof (cases "decode b")
  case None
  then have "handleServerMessage decode now m s =
           handleInterruption m
             (caught InvalidCharacterError
                ((transcriptions m s)\<lparr>nextStartTime := max (nextStartTime s) now\<rparr>))"
    using assms by (simp add: handleServerMessage_def handleServerMessage_begin_def Let_def)
  then show ?thesis by blast
next
  case (Some bytes)
  then obtain e where e: "decodeAudioData bytes 24000 = Inl e"
    using assms(1-3) by (auto simp: segment_def split: sum.splits)
  have "handleServerMessage decode now m s =
           handleInterruption m
             (caught e ((transcriptions m s)\<lparr>nextStartTime := max (nextStartTime s) now\<rparr>))"
    using assms Some e
    by (simp add: handleServerMessage_def handleServerMessage_begin_def Let_def
        handleServerMessage_resume_def)
  then show ?thesis by blast
qed

lemma schedule_cases:
  "(\<exists>e. schedule buf s = caught e s)
   \<or> schedule buf s =
       s\<lparr>nodes := nodes s @
              [\<lparr>buffer = buf, connectedTo = the (outputNode s),
                endedListeners = [SourcesDelete (length (nodes s))],
                startedAt = nextStartTime s, stopped = False\<rparr>],
         nextStartTime := nextStartTime s + duration buf,
         sources := insert (length (nodes s)) (sources s)\<rparr>"
  by (auto simp: schedule_def split: option.splits)

lemma handleServerMessage_body:
  "\<exists>X. handleServerMessage decode now m s = handleInterruption m X
     \<and> nextStartTime s \<le> nextStartTime X
     \<and> ((base64Audio m \<noteq> None \<and> base64Audio m \<noteq> Some [] \<and> outputAudioContext s \<noteq> None
          \<and> outputNode s \<noteq> None) \<longrightarrow> now \<le> nextStartTime X)
     \<and> sources s \<subseteq> sources X \<and> sources X \<subseteq> insert (length (nodes s)) (sources s)
     \<and> take (length (nodes s)) (nodes X) = nodes s
     \<and> length (nodes X) \<le> length (nodes s) + 1
     \<and> outputAudioContext X = outputAudioContext s \<and> outputNode X = outputNode s"
proof (cases "base64Audio m = None \<or> base64Audio m = Some [] \<or> outputAudioContext s = None
           \<or> outputNode s = None")
  case True
  have "handleServerMessage decode now m s = handleInterruption m (transcriptions m s)"
    using True by (rule handleServerMessage_skip)
  moreover have "\<not> (base64Audio m \<noteq> None \<and> base64Audio m \<noteq> Some [] \<and> outputAudioContext s \<noteq> None
          \<and> outputNode s \<noteq> None)"
    using True by auto
  ultimately show ?thesis
    by (intro exI [of _ "transcriptions m s"]) auto
next
  case False
  then obtain b where b: "base64Audio m = Some b" "b \<noteq> []"
    and ctx: "outputAudioContext s \<noteq> None" and out: "outputNode s \<noteq> None"
    by auto
  let ?s2 = "(transcriptions m s)\<lparr>nextStartTime := max (nextStartTime s) now\<rparr>"
  show ?thesis
  proof (cases "segment decode m")
    case None
    from handleServerMessage_failure [OF b None ctx out] obtain e where
      e: "handleServerMessage decode now m s = handleInterruption m (caught e ?s2)"
      by blast
    show ?thesis
      by (intro exI [of _ "caught e ?s2"]) (auto simp: e caught_def)
  next
    case (Some buf)
    note h = handleServerMessage_enqueue [OF Some ctx out, of now]
    from schedule_cases [of buf ?s2] show ?thesis
    proof
      assume "\<exists>e. schedule buf ?s2 = caught e ?s2"
      then obtain e where e: "schedule buf ?s2 = caught e ?s2" by blast
      show ?thesis
        by (intro exI [of _ "caught e ?s2"]) (auto simp: h e caught_def)
    next
      assume e: "schedule buf ?s2 =
         ?s2\<lparr>nodes := nodes ?s2 @
              [\<lparr>buffer = buf, connectedTo = the (outputNode ?s2),
                endedListeners = [SourcesDelete (length (nodes ?s2))],
                startedAt = nextStartTime ?s2, stopped = False\<rparr>],
         nextStartTime := nextStartTime ?s2 + duration buf,
         sources := insert (length (nodes ?s2)) (sources ?s2)\<rparr>"
      have d: "0 \<le> duration buf" by (rule duration_nonneg)
      show ?thesis
        apply (rule exI [of _ "schedule buf ?s2"])
        apply (simp only: h e)
        using d apply (auto simp: max_def simp del: duration_nonneg)
        done
    qed
  qed
qed

lemma handleInterruption_no [simp]: "\<not> isInterrupted m \<Longrightarrow> handleInterruption m s = s"
  by (simp add: handleInterruption_def)

lemma handleInterruption_yes [simp]: "isInterrupted m \<Longrightarrow> handleInterruption m s = interrupt s"
  by (simp add: handleInterruption_def)

lemma interrupt_fields [simp]:
  "sources (interrupt s) = {}"
  "nextStartTime (interrupt s) = 0"
  "nodes (interrupt s) = stopAll (sources s) (nodes s)"
  "outputAudioContext (interrupt s) = outputAudioContext s"
  "outputNode (interrupt s) = outputNode s"
  by (simp_all add: interrupt_def)

lemma length_nodes_body:
  "take (length (nodes s)) (nodes X) = nodes s \<Longrightarrow> length (nodes s) \<le> length (nodes X)"
proof -
  assume a: "take (length (nodes s)) (nodes X) = nodes s"
  have "length (take (length (nodes s)) (nodes X)) \<le> length (nodes X)" by simp
  then show ?thesis using a by simp
qed

lemma nth_nodes_body:
  "take (length (nodes s)) (nodes X) = nodes s \<Longrightarrow> h < length (nodes s) \<Longrightarrow>
   nodes X ! h = nodes s ! h"
proof -
  assume a: "take (length (nodes s)) (nodes X) = nodes s" and h: "h < length (nodes s)"
  have "take (length (nodes s)) (nodes X) ! h = nodes X ! h" using h by simp
  then show ?thesis using a by simp
qed

lemma transcriptions_audioMessage [simp]: "transcriptions (audioMessage ps) s = s"
  by (simp add: transcriptions_def audioMessage_def emptyContent_def)

lemma transcriptions_interruptMessage [simp]: "transcriptions interruptMessage s = s"
  by (simp add: transcriptions_def interruptMessage_def emptyContent_def)

lemma isInterrupted_interruptMessage: "isInterrupted interruptMessage"
  by (simp add: isInterrupted_def interruptMessage_def emptyContent_def)

lemma base64Audio_interruptMessage: "base64Audio interruptMessage = None"
  by (simp add: base64Audio_def interruptMessage_def emptyContent_def)

lemma playingService_eq:
  "playingService =
     \<lparr>session = Some 4, inputAudioContext = Some 0, outputAudioContext = Some 1, stream = Some 3,
      processor = None, source = None, nextStartTime = 1 + 1 / 12000, outputNode = Some 2,
      sources = {0}, allocated = 5, closedContexts = {}, stoppedStreams = {},
      disconnectedNodes = {}, closeRequests = [], getUserMediaCalls = 1,
      nodes = [\<lparr>buffer = \<lparr>numFrames = 2, sampleRate = 24000\<rparr>, connectedTo = 2,
                endedListeners = [SourcesDelete 0], startedAt = 1, stopped = False\<rparr>],
      console = [], calls = []\<rparr>"
proof -
  have h1: "outputAudioContext connectedService \<noteq> None" by (simp add: connectedService_eq)
  have h2: "outputNode connectedService \<noteq> None" by (simp add: connectedService_eq)
  have h3: "(0::real) \<le> 1" by simp
  show ?thesis
    unfolding playingService_def
      enqueue_step [OF segment_goodPart isInterrupted_audioMessage h1 h2 h3]
    by (simp add: connectedService_eq duration_def)
qed

lemma handleServerMessage_cong:
  assumes "transcriptions m = transcriptions m'" "base64Audio m = base64Audio m'"
    "isInterrupted m = isInterrupted m'"
  shows "handleServerMessage decode now m s = handleServerMessage decode now m' s"
  using assms
  by (auto simp: handleServerMessage_def handleServerMessage_begin_def
      handleServerMessage_resume_def handleInterruption_def Let_def
      split: option.splits sum.splits)

subsection \<open>The cursor below the clock and the console do not matter to what follows\<close>

lemma transcriptions_commute:
  "transcriptions m (s\<lparr>nextStartTime := x, console := cs\<rparr>) =
     (transcriptions m s)\<lparr>nextStartTime := x, console := cs\<rparr>"
  by (auto simp: transcriptions_def Let_def split: option.splits)

lemma caught_console: "caught e (u\<lparr>console := cs\<rparr>) = (caught e u)\<lparr>console := cs @ [ConsoleError ''Error decoding audio response'' e]\<rparr>"
  by (simp add: caught_def)

lemma schedule_console: "\<exists>cs'. schedule buf (u\<lparr>console := cs\<rparr>) = (schedule buf u)\<lparr>console := cs'\<rparr>"
proof -
  have "schedule buf (u\<lparr>console := cs\<rparr>) = (schedule buf u)\<lparr>console := cs\<rparr>
      \<or> (\<exists>e. schedule buf (u\<lparr>console := cs\<rparr>) =
            (schedule buf u)\<lparr>console := cs @ [ConsoleError ''Error decoding audio response'' e]\<rparr>)"
    by (auto simp: schedule_def caught_def split: option.splits)
  then show ?thesis by blast
qed

lemma handleInterruption_console:
  "\<exists>cs'. handleInterruption m (u\<lparr>console := cs\<rparr>) = (handleInterruption m u)\<lparr>console := cs'\<rparr>"
proof (cases "isInterrupted m")
  case True
  have "interrupt (u\<lparr>console := cs\<rparr>) = (interrupt u)\<lparr>console := cs @ [ConsoleLog ''Model interrupted'']\<rparr>"
    by (simp add: interrupt_def)
  then show ?thesis using True by auto
next
  case False
  then show ?thesis by auto
qed

lemma handleServerMessage_failure_uniform:
  assumes "base64Audio m = Some b" "b \<noteq> []" "segment decode m = None"
  shows "\<exists>e. \<forall>s now. outputAudioContext s \<noteq> None \<longrightarrow> outputNode s \<noteq> None \<longrightarrow>
           handleServerMessage decode now m s =
             handleInterruption m
               (caught e ((transcriptions m s)\<lparr>nextStartTime := max (nextStartTime s) now\<rparr>))"
proof (cases "decode b")
  case None
  have "handleServerMessage decode now m s =
           handleInterruption m
             (caught InvalidCharacterError
                ((transcriptions m s)\<lparr>nextStartTime := max (nextStartTime s) now\<rparr>))"
    if "outputAudioContext s \<noteq> None" "outputNode s \<noteq> None" for s now
    using assms None that
    by (simp add: handleServerMessage_def handleServerMessage_begin_def Let_def)
  then show ?thesis by blast
next
  case (Some bytes)
  then obtain e where e: "decodeAudioData bytes 24000 = Inl e"
    using assms(1-3) by (auto simp: segment_def split: sum.splits)
  have "handleServerMessage decode now m s =
           handleInterruption m
             (caught e ((transcriptions m s)\<lparr>nextStartTime := max (nextStartTime s) now\<rparr>))"
    if "outputAudioContext s \<noteq> None" "outputNode s \<noteq> None" for s now
    using assms Some e that
    by (simp add: handleServerMessage_def handleServerMessage_begin_def Let_def
        handleServerMessage_resume_def)
  then show ?thesis by blast
qed

lemma handleServerMessage_cursor_irrelevant:
  assumes x: "nextStartTime b \<le> x" "x \<le> max (nextStartTime b) now" and now: "now \<le> now'"
  shows "\<exists>x' cs'.
           handleServerMessage decode now' m (b\<lparr>nextStartTime := x, console := cs\<rparr>) =
             (handleServerMessage decode now' m b)\<lparr>nextStartTime := x', console := cs'\<rparr>
           \<and> nextStartTime (handleServerMessage decode now' m b) \<le> x'
           \<and> x' \<le> max (nextStartTime (handleServerMessage decode now' m b)) now"
proof -
  let ?a = "b\<lparr>nextStartTime := x, console := cs\<rparr>"
  let ?tb = "transcriptions m b"
  have ta: "transcriptions m ?a = ?tb\<lparr>nextStartTime := x, console := cs\<rparr>"
    by (rule transcriptions_commute)
  have mx: "max x now' = max (nextStartTime b) now'" using x now unfolding max_def by (auto split: if_splits)
  have same: "\<exists>x' cs'. P = Q\<lparr>nextStartTime := x', console := cs'\<rparr>
           \<and> nextStartTime Q \<le> x' \<and> x' \<le> max (nextStartTime Q) now"
    if "P = Q\<lparr>console := cs''\<rparr>" for P Q :: GeminiLiveService and cs''
  proof -
    have "P = Q\<lparr>nextStartTime := nextStartTime Q, console := cs''\<rparr>" using that by simp
    then show ?thesis by (intro exI [of _ "nextStartTime Q"] exI [of _ cs'']) simp
  qed
  show ?thesis
  proof (cases "base64Audio m = None \<or> base64Audio m = Some [] \<or> outputAudioContext b = None
           \<or> outputNode b = None")
    case True
    then have ca: "base64Audio m = None \<or> base64Audio m = Some [] \<or> outputAudioContext ?a = None
           \<or> outputNode ?a = None" by simp
    have ha: "handleServerMessage decode now' m ?a =
        handleInterruption m (?tb\<lparr>nextStartTime := x, console := cs\<rparr>)"
      using handleServerMessage_skip [OF ca] by (simp only: ta)
    have hb: "handleServerMessage decode now' m b = handleInterruption m ?tb"
      using True by (rule handleServerMessage_skip)
    show ?thesis
    proof (cases "isInterrupted m")
      case True
      have "interrupt (?tb\<lparr>nextStartTime := x, console := cs\<rparr>) =
          (interrupt ?tb)\<lparr>console := cs @ [ConsoleLog ''Model interrupted'']\<rparr>"
        by (simp add: interrupt_def)
      then have "handleServerMessage decode now' m ?a =
         (handleServerMessage decode now' m b)\<lparr>console := cs @ [ConsoleLog ''Model interrupted'']\<rparr>"
        using True by (simp add: ha hb)
      then show ?thesis by (rule same)
    next
      case False
      have "handleServerMessage decode now' m ?a =
          (handleServerMessage decode now' m b)\<lparr>nextStartTime := x, console := cs\<rparr>"
        using False by (simp add: ha hb)
      moreover have "nextStartTime (handleServerMessage decode now' m b) = nextStartTime b"
        using False by (simp add: hb)
      ultimately show ?thesis using x by auto
    qed
  next
    case False
    then obtain bb where bb: "base64Audio m = Some bb" "bb \<noteq> []"
      and ctx: "outputAudioContext b \<noteq> None" and out: "outputNode b \<noteq> None"
      by auto
    have ctxa: "outputAudioContext ?a \<noteq> None" and outa: "outputNode ?a \<noteq> None"
      using ctx out by simp_all
    let ?u = "?tb\<lparr>nextStartTime := max (nextStartTime b) now'\<rparr>"
    have ua: "(transcriptions m ?a)\<lparr>nextStartTime := max (nextStartTime ?a) now'\<rparr>
        = ?u\<lparr>console := cs\<rparr>"
      by (simp add: ta mx)
    show ?thesis
    proof (cases "segment decode m")
      case None
      from handleServerMessage_failure_uniform [OF bb None] obtain e where
        e: "\<And>s now. outputAudioContext s \<noteq> None \<Longrightarrow> outputNode s \<noteq> None \<Longrightarrow>
           handleServerMessage decode now m s =
             handleInterruption m
               (caught e ((transcriptions m s)\<lparr>nextStartTime := max (nextStartTime s) now\<rparr>))"
        by blast
      have ha: "handleServerMessage decode now' m ?a =
          handleInterruption m ((caught e ?u)\<lparr>console := cs @ [ConsoleError ''Error decoding audio response'' e]\<rparr>)"
        unfolding e [OF ctxa outa] ua caught_console ..
      have hb: "handleServerMessage decode now' m b = handleInterruption m (caught e ?u)"
        by (rule e [OF ctx out])
      from handleInterruption_console [where m = m and u = "caught e ?u"] obtain cs' where
        "handleServerMessage decode now' m ?a = (handleServerMessage decode now' m b)\<lparr>console := cs'\<rparr>"
        unfolding ha hb by blast
      then show ?thesis by (rule same)
    next
      case (Some buf)
      have ha: "handleServerMessage decode now' m ?a = handleInterruption m (schedule buf (?u\<lparr>console := cs\<rparr>))"
        unfolding handleServerMessage_enqueue [OF Some ctxa outa] ua ..
      have hb: "handleServerMessage decode now' m b = handleInterruption m (schedule buf ?u)"
        by (rule handleServerMessage_enqueue [OF Some ctx out])
      from schedule_console [where buf = buf and u = ?u and cs = cs] obtain cs1 where
        c1: "schedule buf (?u\<lparr>console := cs\<rparr>) = (schedule buf ?u)\<lparr>console := cs1\<rparr>"
        by blast
      from handleInterruption_console [where m = m and u = "schedule buf ?u" and cs = cs1] obtain cs' where
        "handleServerMessage decode now' m ?a = (handleServerMessage decode now' m b)\<lparr>console := cs'\<rparr>"
        unfolding ha hb c1 by blast
      then show ?thesis by (rule same)
    qed
  qed
qed

lemma run_cursor_irrelevant:
  assumes "\<forall>y \<in> set ms. now \<le> fst y"
    and "nextStartTime b \<le> x" "x \<le> max (nextStartTime b) now"
  shows "\<exists>x' cs'. run decode ms (b\<lparr>nextStartTime := x, console := cs\<rparr>) =
            (run decode ms b)\<lparr>nextStartTime := x', console := cs'\<rparr>"
  using assms
proof (induction ms arbitrary: b x cs)
  case Nil
  show ?case by (simp, intro exI, rule refl)
next
  case (Cons y ms)
  obtain now' m where y: "y = (now', m)" by (cases y)
  have n: "now \<le> now'" using Cons.prems(1) y by simp
  from handleServerMessage_cursor_irrelevant [OF Cons.prems(2,3) n, where decode = decode and m = m and cs = cs]
  obtain x' cs' where s:
    "handleServerMessage decode now' m (b\<lparr>nextStartTime := x, console := cs\<rparr>) =
             (handleServerMessage decode now' m b)\<lparr>nextStartTime := x', console := cs'\<rparr>"
    "nextStartTime (handleServerMessage decode now' m b) \<le> x'"
    "x' \<le> max (nextStartTime (handleServerMessage decode now' m b)) now"
    by blast
  have r: "\<forall>y \<in> set ms. now \<le> fst y" using Cons.prems(1) by simp
  show ?case
    using Cons.IH [OF r s(2,3), where cs = cs'] by (simp add: y s(1))
qed

lemma base64Audio_oddPart:
  "base64Audio (audioMessage (oddPart # ps)) = Some [0x41, 0x41, 0x41, 0x41]"
  by (simp add: base64Audio_def audioMessage_def oddPart_def emptyContent_def)

lemma handleServerMessage_begin_finished:
  assumes "snd (handleServerMessage_begin decode now m s) = None"
  shows "\<exists>X. fst (handleServerMessage_begin decode now m s) = handleInterruption m X
           \<and> sources X = sources s \<and> nodes X = nodes s
           \<and> outputAudioContext X = outputAudioContext s \<and> outputNode X = outputNode s"
proof (cases "base64Audio m = None \<or> base64Audio m = Some [] \<or> outputAudioContext s = None
           \<or> outputNode s = None")
  case True
  then have "fst (handleServerMessage_begin decode now m s) =
      handleInterruption m (transcriptions m s)"
    by (auto simp: handleServerMessage_begin_def Let_def split: option.splits)
  then show ?thesis
    by (intro exI [of _ "transcriptions m s"]) simp
next
  case False
  then obtain b where b: "base64Audio m = Some b" "b \<noteq> []"
    and ctx: "outputAudioContext s \<noteq> None" "outputNode s \<noteq> None"
    by auto
  have d: "decode b = None"
  proof (cases "decode b")
    case None
    then show ?thesis .
  next
    case (Some bytes)
    then have "snd (handleServerMessage_begin decode now m s) \<noteq> None"
      using b ctx by (simp add: handleServerMessage_begin_def Let_def)
    then show ?thesis using assms by simp
  qed
  let ?X = "caught InvalidCharacterError
     ((transcriptions m s)\<lparr>nextStartTime := max (nextStartTime s) now\<rparr>)"
  have "fst (handleServerMessage_begin decode now m s) = handleInterruption m ?X"
    using b ctx d by (simp add: handleServerMessage_begin_def Let_def)
  then show ?thesis
    by (intro exI [of _ ?X]) (simp add: caught_def)
qed

subsection \<open>The two parts of the handler as steps\<close>

text \<open>How the first part of the handler ends.\<close>

lemma handleServerMessage_begin_cases:
  "((base64Audio m = None \<or> base64Audio m = Some [] \<or> outputAudioContext s = None
       \<or> outputNode s = None)
     \<and> handleServerMessage_begin decode now m s = (handleInterruption m (transcriptions m s), None))
   \<or> ((base64Audio m \<noteq> None \<and> base64Audio m \<noteq> Some [] \<and> outputAudioContext s \<noteq> None
        \<and> outputNode s \<noteq> None)
      \<and> (handleServerMessage_begin decode now m s =
            (handleInterruption m
               (caught InvalidCharacterError
                  ((transcriptions m s)\<lparr>nextStartTime := max (nextStartTime s) now\<rparr>)), None)
         \<or> (\<exists>r. handleServerMessage_begin decode now m s =
               ((transcriptions m s)\<lparr>nextStartTime := max (nextStartTime s) now\<rparr>, Some r))))"
  by (auto simp: handleServerMessage_begin_def Let_def split: option.splits)

lemma nextStartTime_caught [simp]: "nextStartTime (caught e s) = nextStartTime s"
  by (simp add: caught_def)

lemma nextStartTime_begin:
  assumes "\<not> isInterrupted m"
  shows "nextStartTime (fst (handleServerMessage_begin decode now m s)) = nextStartTime s
       \<or> nextStartTime (fst (handleServerMessage_begin decode now m s)) = max (nextStartTime s) now"
  using handleServerMessage_begin_cases [of m s decode now] assms by auto

lemma nextStartTime_begin_entered:
  assumes "\<not> isInterrupted m" "base64Audio m \<noteq> None" "base64Audio m \<noteq> Some []"
    "outputAudioContext s \<noteq> None" "outputNode s \<noteq> None"
  shows "nextStartTime (fst (handleServerMessage_begin decode now m s)) = max (nextStartTime s) now"
  using handleServerMessage_begin_cases [of m s decode now] assms by auto

lemma nextStartTime_resume:
  assumes "\<not> isInterrupted m"
  shows "nextStartTime s \<le> nextStartTime (handleServerMessage_resume m r s)"
proof (cases r)
  case (Inl e)
  then show ?thesis using assms by (simp add: handleServerMessage_resume_def)
next
  case (Inr buf)
  have "0 \<le> duration buf" by (rule duration_nonneg)
  then have "nextStartTime s \<le> nextStartTime (schedule buf s)"
    using schedule_cases [of buf s] by (auto simp del: duration_nonneg)
  then show ?thesis using assms Inr by (simp add: handleServerMessage_resume_def)
qed

lemma nextStartTime_fold_runListener: "nextStartTime (fold runListener ls s) = nextStartTime s"
proof (induction ls arbitrary: s)
  case Nil
  show ?case by simp
next
  case (Cons l ls)
  then show ?case by (cases l) simp
qed

lemma steps_append: "steps decode (xs @ ys) s = steps decode ys (steps decode xs s)"
  by (induction xs arbitrary: s) auto

lemma begin_fields:
  assumes "\<not> isInterrupted m"
  shows "nodes (fst (handleServerMessage_begin decode now m s)) = nodes s"
    "sources (fst (handleServerMessage_begin decode now m s)) = sources s"
    "outputAudioContext (fst (handleServerMessage_begin decode now m s)) = outputAudioContext s"
    "outputNode (fst (handleServerMessage_begin decode now m s)) = outputNode s"
  using handleServerMessage_begin_cases [of m s decode now] assms
  by (auto simp: caught_def)

lemma resume_scheduled:
  assumes "\<not> isInterrupted m" "outputAudioContext s \<noteq> None" "outputNode s \<noteq> None"
    "0 \<le> nextStartTime s"
  shows "handleServerMessage_resume m (Inr buf) s =
           s\<lparr>nodes := nodes s @
                 [\<lparr>buffer = buf, connectedTo = the (outputNode s),
                   endedListeners = [SourcesDelete (length (nodes s))],
                   startedAt = nextStartTime s, stopped = False\<rparr>],
              nextStartTime := nextStartTime s + duration buf,
              sources := insert (length (nodes s)) (sources s)\<rparr>"
proof -
  obtain c where c: "outputAudioContext s = Some c" using assms(2) by blast
  obtain g where g: "outputNode s = Some g" using assms(3) by blast
  show ?thesis
    using assms(1,4) by (simp add: handleServerMessage_resume_def schedule_def c g)
qed

lemma resume_failed:
  assumes "\<not> isInterrupted m"
  shows "handleServerMessage_resume m (Inl e) s = caught e s"
  using assms by (simp add: handleServerMessage_resume_def)

lemma fold_runListener_fields:
  "nodes (fold runListener ls s) = nodes s \<and> outputAudioContext (fold runListener ls s) = outputAudioContext s
   \<and> outputNode (fold runListener ls s) = outputNode s"
proof (induction ls arbitrary: s)
  case Nil
  show ?case by simp
next
  case (Cons l ls)
  then show ?case by (cases l) simp
qed

lemma dispatchEnded_fields:
  "nodes (dispatchEnded h s) = nodes s"
  "outputAudioContext (dispatchEnded h s) = outputAudioContext s"
  "outputNode (dispatchEnded h s) = outputNode s"
  "nextStartTime (dispatchEnded h s) = nextStartTime s"
  by (simp_all add: dispatchEnded_def fold_runListener_fields nextStartTime_fold_runListener)

text \<open>
  Any run of first and second parts of handlers of messages that do not signal
  interruption, and of \<open>ended\<close> events: the nodes created are those of the second parts with a buffer, in their
  order; each starts at the cursor of the moment, which is the end of the node before or
  a clock reading taken since, and never before that end.
\<close>

lemma steps_chain:
  assumes ctx: "outputAudioContext s \<noteq> None" and out: "outputNode s \<noteq> None"
    and c0: "0 \<le> nextStartTime s"
    and ni: "\<forall>x \<in> set sts. \<not> stepInterrupted x"
  shows "outputAudioContext (steps decode sts s) = outputAudioContext s
       \<and> outputNode (steps decode sts s) = outputNode s
       \<and> take (length (nodes s)) (nodes (steps decode sts s)) = nodes s
       \<and> map buffer (drop (length (nodes s)) (nodes (steps decode sts s))) =
           concat (map stepBuffer sts)
       \<and> 0 \<le> nextStartTime (steps decode sts s)
       \<and> (if length (nodes (steps decode sts s)) = length (nodes s)
           then nextStartTime s \<le> nextStartTime (steps decode sts s)
                \<and> (nextStartTime (steps decode sts s) = nextStartTime s
                    \<or> nextStartTime (steps decode sts s) \<in> set (concat (map stepClock sts)))
           else startedAt (last (nodes (steps decode sts s)))
                  + duration (buffer (last (nodes (steps decode sts s))))
                  \<le> nextStartTime (steps decode sts s)
                \<and> (nextStartTime (steps decode sts s) =
                      startedAt (last (nodes (steps decode sts s)))
                      + duration (buffer (last (nodes (steps decode sts s))))
                    \<or> nextStartTime (steps decode sts s) \<in> set (concat (map stepClock sts))))
       \<and> (length (nodes s) < length (nodes (steps decode sts s)) \<longrightarrow>
             nextStartTime s \<le> startedAt (nodes (steps decode sts s) ! length (nodes s))
             \<and> (startedAt (nodes (steps decode sts s) ! length (nodes s)) = nextStartTime s
                 \<or> startedAt (nodes (steps decode sts s) ! length (nodes s))
                      \<in> set (concat (map stepClock sts))))
       \<and> (\<forall>i. length (nodes s) \<le> i \<longrightarrow> Suc i < length (nodes (steps decode sts s)) \<longrightarrow>
             startedAt (nodes (steps decode sts s) ! i)
               + duration (buffer (nodes (steps decode sts s) ! i))
               \<le> startedAt (nodes (steps decode sts s) ! Suc i)
             \<and> (startedAt (nodes (steps decode sts s) ! Suc i) =
                   startedAt (nodes (steps decode sts s) ! i)
                   + duration (buffer (nodes (steps decode sts s) ! i))
                 \<or> startedAt (nodes (steps decode sts s) ! Suc i)
                      \<in> set (concat (map stepClock sts))))"
  using ni
proof (induction sts rule: rev_induct)
  case Nil
  then show ?case using c0 by simp
next
  case (snoc x sts)
  define n where "n = length (nodes s)"
  define s1 where "s1 = steps decode sts s"
  define s2 where "s2 = steps decode (sts @ [x]) s"
  define N where "N = nodes s1"
  define N' where "N' = nodes s2"
  define c1 where "c1 = nextStartTime s1"
  define c2 where "c2 = nextStartTime s2"
  define K where "K = set (concat (map stepClock sts))"
  define K' where "K' = set (concat (map stepClock (sts @ [x])))"
  define E :: "AudioBufferSourceNode \<Rightarrow> real"
    where "E = (\<lambda>nd. startedAt nd + duration (buffer nd))"
  have s2: "s2 = step decode x s1" by (simp add: s2_def s1_def steps_append)
  have nx: "\<not> stepInterrupted x" using snoc.prems by simp
  have KK: "K \<subseteq> K'" by (auto simp: K_def K'_def)
  have ni': "\<forall>x \<in> set sts. \<not> stepInterrupted x" using snoc.prems by simp
  have IH_all: "outputAudioContext s1 = outputAudioContext s \<and> outputNode s1 = outputNode s
    \<and> take n N = nodes s
    \<and> map buffer (drop n N) = concat (map stepBuffer sts)
    \<and> 0 \<le> c1
    \<and> (if length N = n then nextStartTime s \<le> c1 \<and> (c1 = nextStartTime s \<or> c1 \<in> K)
        else E (last N) \<le> c1 \<and> (c1 = E (last N) \<or> c1 \<in> K))
    \<and> (n < length N \<longrightarrow> nextStartTime s \<le> startedAt (N ! n)
        \<and> (startedAt (N ! n) = nextStartTime s \<or> startedAt (N ! n) \<in> K))
    \<and> (\<forall>i. n \<le> i \<longrightarrow> Suc i < length N \<longrightarrow>
        E (N ! i) \<le> startedAt (N ! Suc i)
        \<and> (startedAt (N ! Suc i) = E (N ! i) \<or> startedAt (N ! Suc i) \<in> K))"
    using snoc.IH [OF ni'] unfolding n_def s1_def N_def c1_def K_def E_def .
  have IH: "outputAudioContext s1 = outputAudioContext s" "outputNode s1 = outputNode s"
    "take n N = nodes s"
    "map buffer (drop n N) = concat (map stepBuffer sts)"
    "0 \<le> c1"
    "if length N = n then nextStartTime s \<le> c1 \<and> (c1 = nextStartTime s \<or> c1 \<in> K)
     else E (last N) \<le> c1 \<and> (c1 = E (last N) \<or> c1 \<in> K)"
    "n < length N \<longrightarrow> nextStartTime s \<le> startedAt (N ! n)
        \<and> (startedAt (N ! n) = nextStartTime s \<or> startedAt (N ! n) \<in> K)"
    "\<forall>i. n \<le> i \<longrightarrow> Suc i < length N \<longrightarrow>
        E (N ! i) \<le> startedAt (N ! Suc i)
        \<and> (startedAt (N ! Suc i) = E (N ! i) \<or> startedAt (N ! Suc i) \<in> K)"
    using IH_all by blast+
  have nN: "n \<le> length N"
  proof -
    have "length (take n N) = length (nodes s)" by (rule arg_cong [OF IH(3)])
    then show ?thesis by (simp add: n_def)
  qed
  have ctx1: "outputAudioContext s1 \<noteq> None" "outputNode s1 \<noteq> None"
    using IH(1,2) ctx out by simp_all
  have goal: "outputAudioContext s2 = outputAudioContext s \<and> outputNode s2 = outputNode s
    \<and> take n N' = nodes s
    \<and> map buffer (drop n N') = concat (map stepBuffer (sts @ [x]))
    \<and> 0 \<le> c2
    \<and> (if length N' = n then nextStartTime s \<le> c2 \<and> (c2 = nextStartTime s \<or> c2 \<in> K')
        else E (last N') \<le> c2 \<and> (c2 = E (last N') \<or> c2 \<in> K'))
    \<and> (n < length N' \<longrightarrow> nextStartTime s \<le> startedAt (N' ! n)
        \<and> (startedAt (N' ! n) = nextStartTime s \<or> startedAt (N' ! n) \<in> K'))
    \<and> (\<forall>i. n \<le> i \<longrightarrow> Suc i < length N' \<longrightarrow>
        E (N' ! i) \<le> startedAt (N' ! Suc i)
        \<and> (startedAt (N' ! Suc i) = E (N' ! i) \<or> startedAt (N' ! Suc i) \<in> K'))"
  proof -
    have same: ?thesis
      if f: "outputAudioContext s2 = outputAudioContext s1" "outputNode s2 = outputNode s1"
        "N' = N" "concat (map stepBuffer (sts @ [x])) = concat (map stepBuffer sts)"
        and c: "c1 \<le> c2" "c2 = c1 \<or> c2 \<in> K'"
    proof -
      have a6: "if length N' = n then nextStartTime s \<le> c2 \<and> (c2 = nextStartTime s \<or> c2 \<in> K')
        else E (last N') \<le> c2 \<and> (c2 = E (last N') \<or> c2 \<in> K')"
        using IH(6) c KK unfolding f(3) by (auto split: if_splits)
      have a7: "n < length N' \<longrightarrow> nextStartTime s \<le> startedAt (N' ! n)
        \<and> (startedAt (N' ! n) = nextStartTime s \<or> startedAt (N' ! n) \<in> K')"
        using IH(7) KK unfolding f(3) by auto
      have a8: "\<forall>i. n \<le> i \<longrightarrow> Suc i < length N' \<longrightarrow>
        E (N' ! i) \<le> startedAt (N' ! Suc i)
        \<and> (startedAt (N' ! Suc i) = E (N' ! i) \<or> startedAt (N' ! Suc i) \<in> K')"
        using IH(8) KK unfolding f(3) by blast
      have a5: "0 \<le> c2" using IH(5) c(1) by simp
      show ?thesis
        using IH(1,2,3,4) f a5 a6 a7 a8 by simp
    qed
    show ?thesis
    proof (cases x)
      case (Begin now m)
      have nm: "\<not> isInterrupted m" using nx Begin by simp
      have b: "s2 = fst (handleServerMessage_begin decode now m s1)"
        by (simp add: s2 Begin)
      have k: "now \<in> K'" by (simp add: K'_def Begin)
      have c: "c2 = c1 \<or> c2 = max c1 now"
        using nextStartTime_begin [OF nm, of decode now s1] by (simp add: c2_def c1_def b)
      show ?thesis
      proof (rule same)
        show "outputAudioContext s2 = outputAudioContext s1" "outputNode s2 = outputNode s1"
          "N' = N"
          by (simp_all add: b begin_fields [OF nm] N'_def N_def)
        show "concat (map stepBuffer (sts @ [x])) = concat (map stepBuffer sts)"
          by (simp add: Begin)
        show "c1 \<le> c2" using c by auto
        show "c2 = c1 \<or> c2 \<in> K'" using c k by (auto simp: max_def)
      qed
    next
      case (Ended h)
      have b: "s2 = dispatchEnded h s1" by (simp add: s2 Ended)
      show ?thesis
      proof (rule same)
        show "outputAudioContext s2 = outputAudioContext s1" "outputNode s2 = outputNode s1"
          "N' = N"
          by (simp_all add: b dispatchEnded_fields N'_def N_def)
        show "concat (map stepBuffer (sts @ [x])) = concat (map stepBuffer sts)"
          by (simp add: Ended)
        show "c1 \<le> c2" "c2 = c1 \<or> c2 \<in> K'"
          by (simp_all add: c2_def c1_def b dispatchEnded_fields)
      qed
    next
      case (Resume m r)
      have nm: "\<not> isInterrupted m" using nx Resume by simp
      show ?thesis
      proof (cases r)
        case (Inl e)
        have b: "s2 = caught e s1"
          by (simp add: s2 Resume Inl resume_failed [OF nm])
        show ?thesis
        proof (rule same)
          show "outputAudioContext s2 = outputAudioContext s1" "outputNode s2 = outputNode s1"
            "N' = N"
            by (simp_all add: b caught_def N'_def N_def)
          show "concat (map stepBuffer (sts @ [x])) = concat (map stepBuffer sts)"
            by (simp add: Resume Inl)
          show "c1 \<le> c2" "c2 = c1 \<or> c2 \<in> K'"
            by (simp_all add: c2_def c1_def b)
        qed
      next
        case (Inr buf)
        define nd where "nd = \<lparr>buffer = buf, connectedTo = the (outputNode s1),
                   endedListeners = [SourcesDelete (length N)],
                   startedAt = c1, stopped = False\<rparr>"
        have b: "s2 = s1\<lparr>nodes := N @ [nd], nextStartTime := c1 + duration buf,
                          sources := insert (length N) (sources s1)\<rparr>"
          using IH(5)
          by (simp add: s2 Resume Inr resume_scheduled [OF nm ctx1] nd_def N_def c1_def)
        have N': "N' = N @ [nd]" by (simp add: N'_def b)
        have c2: "c2 = E nd" by (simp add: c2_def b E_def nd_def)
        have sa: "startedAt nd = c1" by (simp add: nd_def)
        have d: "0 \<le> duration buf" by (rule duration_nonneg)
        have a1: "outputAudioContext s2 = outputAudioContext s" "outputNode s2 = outputNode s"
          using IH(1,2) by (simp_all add: b)
        have a3: "take n N' = nodes s" using IH(3) nN by (simp add: N')
        have a4: "map buffer (drop n N') = concat (map stepBuffer (sts @ [x]))"
          using IH(4) nN by (simp add: N' Resume Inr nd_def)
        have a5: "0 \<le> c2" using IH(5) d by (simp add: c2 E_def nd_def)
        have a6: "if length N' = n then nextStartTime s \<le> c2 \<and> (c2 = nextStartTime s \<or> c2 \<in> K')
          else E (last N') \<le> c2 \<and> (c2 = E (last N') \<or> c2 \<in> K')"
          using nN by (simp add: N' c2)
        have a7: "n < length N' \<longrightarrow> nextStartTime s \<le> startedAt (N' ! n)
          \<and> (startedAt (N' ! n) = nextStartTime s \<or> startedAt (N' ! n) \<in> K')"
        proof (cases "length N = n")
          case True
          have "N' ! n = nd" by (simp add: N' True [symmetric])
          then show ?thesis using IH(6) True KK sa by auto
        next
          case False
          then have l: "n < length N" using nN by simp
          then have "N' ! n = N ! n" by (simp add: N' nth_append)
          then show ?thesis using IH(7) l KK by auto
        qed
        have a8: "E (N' ! i) \<le> startedAt (N' ! Suc i)
          \<and> (startedAt (N' ! Suc i) = E (N' ! i) \<or> startedAt (N' ! Suc i) \<in> K')"
          if i: "n \<le> i" "Suc i < length N'" for i
        proof (cases "Suc i < length N")
          case True
          then have "N' ! i = N ! i" "N' ! Suc i = N ! Suc i" by (simp_all add: N' nth_append)
          then show ?thesis using IH(8) i(1) True KK by auto
        next
          case False
          then have e: "Suc i = length N" using i(2) by (simp add: N')
          then have ne: "N \<noteq> []" by auto
          have li: "N ! i = last N" by (simp add: last_conv_nth [OF ne] e [symmetric])
          have x1: "N' ! Suc i = nd" by (simp add: N' e)
          have il: "i < length N" by (simp add: e [symmetric])
          have x2: "N' ! i = last N" using il by (simp add: N' nth_append li)
          have "length N \<noteq> n" using e i(1) by simp
          then have "E (last N) \<le> c1 \<and> (c1 = E (last N) \<or> c1 \<in> K)" using IH(6) by simp
          then show ?thesis using KK sa by (auto simp: x1 x2)
        qed
        show ?thesis using a1 a3 a4 a5 a6 a7 a8 by blast
      qed
    qed
  qed
  then show ?case
    unfolding n_def s2_def N'_def c2_def K'_def E_def .
qed

section \<open>Teardown\<close>

lemma held_transcriptions [simp]: "held (transcriptions m s) = held s"
  using transcriptions_calls [of m s] by (auto simp: held_def)

lemma held_caught [simp]: "held (caught e s) = held s"
  by (simp add: caught_def held_def)

lemma held_interrupt [simp]: "held (interrupt s) = held s"
  by (simp add: interrupt_def held_def)

lemma held_handleInterruption [simp]: "held (handleInterruption m s) = held s"
  by (cases "isInterrupted m") simp_all

lemma held_nextStartTime [simp]: "held (s\<lparr>nextStartTime := x\<rparr>) = held s"
  by (simp add: held_def)

lemma held_schedule [simp]: "held (schedule buf s) = held s"
proof -
  have "held (s\<lparr>nodes := ns, nextStartTime := x, sources := S\<rparr>) = held s" for ns x S
    by (simp add: held_def)
  then show ?thesis
    by (auto simp: schedule_def split: option.splits)
qed

lemma held_begin: "held (fst (handleServerMessage_begin decode now m s)) = held s"
  by (auto simp: handleServerMessage_begin_def Let_def split: option.splits)

lemma held_resume: "held (handleServerMessage_resume m r s) = held s"
  by (cases r) (simp_all add: handleServerMessage_resume_def)

lemma held_fold_runListener: "held (fold runListener ls s) = held s"
proof (induction ls arbitrary: s)
  case Nil
  show ?case by simp
next
  case (Cons l ls)
  have "held (runListener l s) = held s" by (cases l) (simp add: held_def)
  then show ?case using Cons.IH [of "runListener l s"] by simp
qed

lemma held_dispatchEnded: "held (dispatchEnded h s) = held s"
  by (simp add: dispatchEnded_def held_fold_runListener)

lemma knownObjects_cong: "held t = held s \<Longrightarrow> knownObjects t = knownObjects s"
  by (simp add: knownObjects_def held_def)


text \<open>Steps 1 to 3 of \<open>disconnect\<close> in one update.\<close>

lemma releaseCapture_eq:
  "releaseCapture s =
     s\<lparr>closeRequests := closeRequests s @ (case session s of None \<Rightarrow> [] | Some p \<Rightarrow> [p]),
       disconnectedNodes := disconnectedNodes s \<union> set_option (processor s) \<union> set_option (source s),
       processor := None, source := None,
       stoppedStreams := stoppedStreams s \<union> set_option (stream s),
       stream := None\<rparr>"
proof -
  define s1 where "s1 = (case session s of None \<Rightarrow> s
                | Some p \<Rightarrow> s\<lparr>closeRequests := closeRequests s @ [p]\<rparr>)"
  define s2 where "s2 = (case processor s1 of None \<Rightarrow> s1
                | Some n \<Rightarrow> s1\<lparr>disconnectedNodes := insert n (disconnectedNodes s1),
                                processor := None\<rparr>)"
  define s3 where "s3 = (case source s2 of None \<Rightarrow> s2
                | Some n \<Rightarrow> s2\<lparr>disconnectedNodes := insert n (disconnectedNodes s2),
                                source := None\<rparr>)"
  have d: "releaseCapture s =
      (case stream s3 of None \<Rightarrow> s3
          | Some t \<Rightarrow> s3\<lparr>stoppedStreams := insert t (stoppedStreams s3),
                          stream := None\<rparr>)"
    unfolding releaseCapture_def s1_def s2_def s3_def Let_def by (rule refl)
  have e1: "s1 = s\<lparr>closeRequests := closeRequests s @ (case session s of None \<Rightarrow> [] | Some p \<Rightarrow> [p])\<rparr>"
    by (simp add: s1_def split: option.splits)
  have e2: "s2 = s1\<lparr>disconnectedNodes := disconnectedNodes s1 \<union> set_option (processor s1),
                    processor := None\<rparr>"
    by (cases "processor s1") (simp_all add: s2_def)
  have e3: "s3 = s2\<lparr>disconnectedNodes := disconnectedNodes s2 \<union> set_option (source s2),
                    source := None\<rparr>"
    by (cases "source s2") (simp_all add: s3_def)
  have e4: "releaseCapture s = s3\<lparr>stoppedStreams := stoppedStreams s3 \<union> set_option (stream s3),
                    stream := None\<rparr>"
    by (cases "stream s3") (simp_all add: d)
  show ?thesis
    by (simp add: e4 e3 e2 e1 Un_assoc)
qed

text \<open>What \<open>disconnect\<close>, run to its end, does to a state whose held contexts are open.\<close>

lemma disconnect_open:
  assumes "contextsOpen s"
  shows "disconnect s =
    (Done,
     s\<lparr>closeRequests := closeRequests s @ (case session s of None \<Rightarrow> [] | Some p \<Rightarrow> [p]),
       disconnectedNodes := disconnectedNodes s \<union> set_option (processor s) \<union> set_option (source s),
       processor := None, source := None,
       stoppedStreams := stoppedStreams s \<union> set_option (stream s),
       stream := None,
       closedContexts := closedContexts s \<union> set_option (inputAudioContext s)
                          \<union> set_option (outputAudioContext s),
       inputAudioContext := None, outputAudioContext := None,
       nodes := stopAll (sources s) (nodes s), sources := {}, nextStartTime := 0\<rparr>)"
proof -
  define s4 where "s4 = releaseCapture s"
  have "contextsOpen s4 = contextsOpen s"
    by (simp add: contextsOpen_def s4_def releaseCapture_eq cong: option.case_cong)
  then have o4: "contextsOpen s4" using assms by simp
  have f4: "inputAudioContext s4 = inputAudioContext s" "outputAudioContext s4 = outputAudioContext s"
    "closedContexts s4 = closedContexts s" "sources s4 = sources s" "nodes s4 = nodes s"
    by (simp_all add: s4_def releaseCapture_eq)
  have "disconnect s =
      (Done, s4\<lparr>closedContexts := closedContexts s \<union> set_option (inputAudioContext s)
                          \<union> set_option (outputAudioContext s),
       inputAudioContext := None, outputAudioContext := None,
       nodes := stopAll (sources s) (nodes s), sources := {}, nextStartTime := 0\<rparr>)"
  proof (cases "inputAudioContext s")
    case None
    note i = this
    show ?thesis
    proof (cases "outputAudioContext s")
      case None
      then show ?thesis using i f4
        by (simp add: disconnect_def disconnect_begin_def disconnect_output_def
            cleanupQueuedAudio_def s4_def [symmetric])
    next
      case (Some c)
      then have "c \<notin> closedContexts s" using o4 f4 by (simp add: contextsOpen_def)
      then show ?thesis using i f4 Some
        by (simp add: disconnect_def disconnect_begin_def disconnect_output_def
            disconnect_resume_def cleanupQueuedAudio_def s4_def [symmetric])
    qed
  next
    case (Some ci)
    note i = this
    have ci: "ci \<notin> closedContexts s" using o4 f4 i by (simp add: contextsOpen_def)
    show ?thesis
    proof (cases "outputAudioContext s")
      case None
      then show ?thesis using i f4 ci
        by (simp add: disconnect_def disconnect_begin_def disconnect_output_def
            disconnect_resume_def cleanupQueuedAudio_def s4_def [symmetric])
    next
      case (Some c)
      then have "c \<notin> closedContexts s" "c \<noteq> ci" using o4 f4 i by (auto simp: contextsOpen_def)
      then show ?thesis using i f4 ci Some
        by (simp add: disconnect_def disconnect_begin_def disconnect_output_def
            disconnect_resume_def cleanupQueuedAudio_def s4_def [symmetric] insert_commute)
    qed
  qed
  then show ?thesis
    by (simp add: s4_def releaseCapture_eq)
qed

lemma knownObjects_releaseCapture: "knownObjects s \<Longrightarrow> knownObjects (releaseCapture s)"
  by (cases "session s"; cases "stream s") (auto simp: knownObjects_def releaseCapture_eq)

lemma knownObjects_disconnect_output:
  "knownObjects s \<Longrightarrow> knownObjects (snd (disconnect_output s))"
  by (cases "outputAudioContext s")
     (auto simp: knownObjects_def disconnect_output_def cleanupQueuedAudio_def)

lemma knownObjects_disconnect_begin:
  assumes "knownObjects s"
  shows "knownObjects (snd (disconnect_begin s))"
proof -
  have k: "knownObjects (releaseCapture s)"
    using assms by (rule knownObjects_releaseCapture)
  show ?thesis
  proof (cases "inputAudioContext (releaseCapture s)")
    case None
    then show ?thesis
      using knownObjects_disconnect_output [OF k] by (simp add: disconnect_begin_def)
  next
    case (Some c)
    then show ?thesis
      using k by (cases "c \<in> closedContexts (releaseCapture s)")
        (auto simp: disconnect_begin_def knownObjects_def Let_def)
  qed
qed

lemma knownObjects_disconnect_resume:
  assumes "knownObjects s"
  shows "knownObjects (snd (disconnect_resume a s))"
proof (cases a)
  case InputClose
  have "knownObjects (s\<lparr>inputAudioContext := None\<rparr>)"
    using assms by (simp add: knownObjects_def)
  then show ?thesis
    using InputClose knownObjects_disconnect_output by (simp add: disconnect_resume_def)
next
  case OutputClose
  then show ?thesis
    using assms by (simp add: disconnect_resume_def knownObjects_def cleanupQueuedAudio_def)
qed

lemma reachable_knownObjects: "reachable s \<Longrightarrow> knownObjects s"
proof (induction rule: reachable.induct)
  case new
  show ?case by (simp add: knownObjects_def newService_def)
next
  case (connect_begin s)
  then show ?case by (auto simp: knownObjects_def connect_begin_def)
next
  case (connect_resume s r)
  then show ?case by (cases r) (auto simp: knownObjects_def connect_resume_def)
next
  case (onopen s)
  then show ?case
    by (auto simp: knownObjects_def onopen_def startInputStreaming_def Let_def)
next
  case (onclose s)
  then show ?case by (simp add: knownObjects_def onclose_def)
next
  case (onerror s)
  then show ?case by (simp add: knownObjects_def onerror_def)
next
  case (message_begin s decode now m)
  then show ?case by (simp add: knownObjects_cong [OF held_begin])
next
  case (message_resume s m r)
  then show ?case by (simp add: knownObjects_cong [OF held_resume])
next
  case (ended s h)
  then show ?case by (simp add: knownObjects_cong [OF held_dispatchEnded])
next
  case (disconnect_begin s)
  then show ?case by (simp add: knownObjects_disconnect_begin)
next
  case (disconnect_resume s a)
  then show ?case by (simp add: knownObjects_disconnect_resume)
qed




section \<open>The properties of the specification\<close>

subsection \<open>C1\<close>

text \<open>
  C1 (as amended). With the output context and the gain node in place and a cursor that
  is not negative. The first part of the handler of a message with decodable audio raises
  the cursor to the larger of cursor and clock and suspends on the decoding; it creates no
  node. The second part, given the decoded buffer, creates a node that starts the buffer
  exactly at the cursor as it is at that moment, whatever ran since the first part; the
  node carries the listener that removes it from the active set and is added to the set,
  and the cursor advances by the duration. For any interleaving of first parts, second
  parts and \<open>ended\<close> events in which no message signals interruption, the nodes created
  are those of the decoded buffers in the order of their second parts, the first starts at
  the cursor of the beginning or at a later clock reading, and each further one starts at
  the end of the one before or at a clock reading taken by a first part of the
  interleaving, never before that end. When each handler runs to its end before the next
  message arrives, the start of each segment is the larger of the end of the one before
  and the clock at its arrival.
\<close>

theorem enqueue_steps:
  assumes "outputAudioContext s \<noteq> None" and "outputNode s \<noteq> None"
    and "0 \<le> nextStartTime s"
  shows "(segment decode m = Some buf \<longrightarrow>
            handleServerMessage_begin decode now m s =
              ((transcriptions m s)\<lparr>nextStartTime := max (nextStartTime s) now\<rparr>, Some (Inr buf)))
       \<and> (\<not> isInterrupted m \<longrightarrow>
            handleServerMessage_resume m (Inr buf) s =
              s\<lparr>nodes := nodes s @
                    [\<lparr>buffer = buf, connectedTo = the (outputNode s),
                      endedListeners = [SourcesDelete (length (nodes s))],
                      startedAt = nextStartTime s, stopped = False\<rparr>],
                 nextStartTime := nextStartTime s + duration buf,
                 sources := insert (length (nodes s)) (sources s)\<rparr>
            \<and> sources (dispatchEnded (length (nodes s)) (handleServerMessage_resume m (Inr buf) s)) =
                sources s - {length (nodes s)})
       \<and> ((\<forall>x \<in> set sts. \<not> stepInterrupted x) \<longrightarrow>
            take (length (nodes s)) (nodes (steps decode sts s)) = nodes s
            \<and> map buffer (drop (length (nodes s)) (nodes (steps decode sts s))) =
                concat (map stepBuffer sts)
            \<and> (length (nodes s) < length (nodes (steps decode sts s)) \<longrightarrow>
                 nextStartTime s \<le> startedAt (nodes (steps decode sts s) ! length (nodes s))
                 \<and> (startedAt (nodes (steps decode sts s) ! length (nodes s)) = nextStartTime s
                     \<or> startedAt (nodes (steps decode sts s) ! length (nodes s))
                          \<in> set (concat (map stepClock sts))))
            \<and> (\<forall>i. length (nodes s) \<le> i \<longrightarrow> Suc i < length (nodes (steps decode sts s)) \<longrightarrow>
                 startedAt (nodes (steps decode sts s) ! i)
                   + duration (buffer (nodes (steps decode sts s) ! i))
                   \<le> startedAt (nodes (steps decode sts s) ! Suc i)
                 \<and> (startedAt (nodes (steps decode sts s) ! Suc i) =
                       startedAt (nodes (steps decode sts s) ! i)
                       + duration (buffer (nodes (steps decode sts s) ! i))
                     \<or> startedAt (nodes (steps decode sts s) ! Suc i)
                          \<in> set (concat (map stepClock sts)))))
       \<and> ((\<forall>x \<in> set ms. 0 \<le> fst x \<and> segment decode (snd x) \<noteq> None \<and> \<not> isInterrupted (snd x)) \<longrightarrow>
            take (length (nodes s)) (nodes (run decode ms s)) = nodes s
            \<and> length (nodes (run decode ms s)) = length (nodes s) + length ms
            \<and> (\<forall>i. Suc i < length ms \<longrightarrow>
                 startedAt (nodes (run decode ms s) ! (length (nodes s) + Suc i)) =
                   max (startedAt (nodes (run decode ms s) ! (length (nodes s) + i))
                        + duration (buffer (nodes (run decode ms s) ! (length (nodes s) + i))))
                       (fst (ms ! Suc i))))"
proof -
  have a: "handleServerMessage_begin decode now m s =
              ((transcriptions m s)\<lparr>nextStartTime := max (nextStartTime s) now\<rparr>, Some (Inr buf))"
    if "segment decode m = Some buf"
    by (rule handleServerMessage_begin_enqueue [OF that assms(1) assms(2)])
  have b1: "handleServerMessage_resume m (Inr buf) s =
              s\<lparr>nodes := nodes s @
                    [\<lparr>buffer = buf, connectedTo = the (outputNode s),
                      endedListeners = [SourcesDelete (length (nodes s))],
                      startedAt = nextStartTime s, stopped = False\<rparr>],
                 nextStartTime := nextStartTime s + duration buf,
                 sources := insert (length (nodes s)) (sources s)\<rparr>"
    if "\<not> isInterrupted m"
    by (rule resume_scheduled [OF that assms])
  have b2: "sources (dispatchEnded (length (nodes s)) (handleServerMessage_resume m (Inr buf) s)) =
                sources s - {length (nodes s)}"
    if "\<not> isInterrupted m"
    unfolding b1 [OF that] by (simp add: dispatchEnded_def)
  have c: "take (length (nodes s)) (nodes (steps decode sts s)) = nodes s
            \<and> map buffer (drop (length (nodes s)) (nodes (steps decode sts s))) =
                concat (map stepBuffer sts)
            \<and> (length (nodes s) < length (nodes (steps decode sts s)) \<longrightarrow>
                 nextStartTime s \<le> startedAt (nodes (steps decode sts s) ! length (nodes s))
                 \<and> (startedAt (nodes (steps decode sts s) ! length (nodes s)) = nextStartTime s
                     \<or> startedAt (nodes (steps decode sts s) ! length (nodes s))
                          \<in> set (concat (map stepClock sts))))
            \<and> (\<forall>i. length (nodes s) \<le> i \<longrightarrow> Suc i < length (nodes (steps decode sts s)) \<longrightarrow>
                 startedAt (nodes (steps decode sts s) ! i)
                   + duration (buffer (nodes (steps decode sts s) ! i))
                   \<le> startedAt (nodes (steps decode sts s) ! Suc i)
                 \<and> (startedAt (nodes (steps decode sts s) ! Suc i) =
                       startedAt (nodes (steps decode sts s) ! i)
                       + duration (buffer (nodes (steps decode sts s) ! i))
                     \<or> startedAt (nodes (steps decode sts s) ! Suc i)
                          \<in> set (concat (map stepClock sts))))"
    if h: "\<forall>x \<in> set sts. \<not> stepInterrupted x"
  proof -
    note t = steps_chain [OF assms h, of decode]
    note t3 = t [THEN conjunct2, THEN conjunct2, THEN conjunct1]
    note t4 = t [THEN conjunct2, THEN conjunct2, THEN conjunct2, THEN conjunct1]
    note t7 = t [THEN conjunct2, THEN conjunct2, THEN conjunct2, THEN conjunct2,
        THEN conjunct2, THEN conjunct2, THEN conjunct1]
    note t8 = t [THEN conjunct2, THEN conjunct2, THEN conjunct2, THEN conjunct2,
        THEN conjunct2, THEN conjunct2, THEN conjunct2]
    show ?thesis
      apply (intro conjI)
      apply (rule t3)
      apply (rule t4)
      apply (rule t7)
      apply (rule t8)
      done
  qed
  have d: "take (length (nodes s)) (nodes (run decode ms s)) = nodes s
            \<and> length (nodes (run decode ms s)) = length (nodes s) + length ms
            \<and> (\<forall>i. Suc i < length ms \<longrightarrow>
                 startedAt (nodes (run decode ms s) ! (length (nodes s) + Suc i)) =
                   max (startedAt (nodes (run decode ms s) ! (length (nodes s) + i))
                        + duration (buffer (nodes (run decode ms s) ! (length (nodes s) + i))))
                       (fst (ms ! Suc i)))"
    if h: "\<forall>x \<in> set ms. 0 \<le> fst x \<and> segment decode (snd x) \<noteq> None \<and> \<not> isInterrupted (snd x)"
  proof -
    note r = enqueue_run [OF h assms(1) assms(2)]
    have e: "take (length (nodes s)) (nodes (run decode ms s)) = nodes s"
      and f: "length (nodes (run decode ms s)) = length (nodes s) + length ms"
      using r by blast+
    have g: "startedAt (nodes (run decode ms s) ! (length (nodes s) + Suc i)) =
               max (startedAt (nodes (run decode ms s) ! (length (nodes s) + i))
                    + duration (buffer (nodes (run decode ms s) ! (length (nodes s) + i))))
                   (fst (ms ! Suc i))" if "Suc i < length ms" for i
    proof -
      from r that have "startedAt (nodes (run decode ms s) ! (length (nodes s) + Suc i)) =
               max (if Suc i = 0 then nextStartTime s
                    else startedAt (nodes (run decode ms s) ! (length (nodes s) + Suc i - 1))
                         + duration (buffer (nodes (run decode ms s) ! (length (nodes s) + Suc i - 1))))
                   (fst (ms ! Suc i))"
        by blast
      then show ?thesis by simp
    qed
    show ?thesis using e f g by blast
  qed
  show ?thesis
    apply (rule conjI)
     apply (rule impI, erule a)
    apply (rule conjI)
     apply (rule impI, rule conjI, erule b1, erule b2)
    apply (rule conjI)
     apply (rule impI, erule c)
    apply (rule impI, erule d)
    done
qed

text \<open>
  On the connected service, with segments of two frames. Two handlers overlap: their first
  parts run at clock readings 1 and 2, then the two second parts, the first node ending in
  between; the second node starts no earlier than the end of the first. Two messages
  handled one after the other at clock reading 1: the second segment starts where the
  first ends.
\<close>

theorem enqueue_steps_witness:
  "outputAudioContext connectedService \<noteq> None \<and> outputNode connectedService \<noteq> None
   \<and> 0 \<le> nextStartTime connectedService
   \<and> segment exampleDecode (audioMessage [goodPart]) = Some \<lparr>numFrames = 2, sampleRate = 24000\<rparr>
   \<and> \<not> isInterrupted (audioMessage [goodPart])
   \<and> list_all (\<lambda>x. \<not> stepInterrupted x)
        [Begin 1 (audioMessage [goodPart]), Begin 2 (audioMessage [goodPart]),
         Resume (audioMessage [goodPart]) (Inr \<lparr>numFrames = 2, sampleRate = 24000\<rparr>), Ended 0,
         Resume (audioMessage [goodPart]) (Inr \<lparr>numFrames = 2, sampleRate = 24000\<rparr>)]
   \<and> list_all (\<lambda>x. 0 \<le> fst x \<and> segment exampleDecode (snd x) \<noteq> None
                     \<and> \<not> isInterrupted (snd x))
        [(1::real, audioMessage [goodPart]), (1, audioMessage [goodPart])]
   \<and> nextStartTime (fst (handleServerMessage_begin exampleDecode 1 (audioMessage [goodPart])
        connectedService)) = 1
   \<and> snd (handleServerMessage_begin exampleDecode 1 (audioMessage [goodPart]) connectedService) =
        Some (Inr \<lparr>numFrames = 2, sampleRate = 24000\<rparr>)
   \<and> nodes (handleServerMessage_resume (audioMessage [goodPart])
        (Inr \<lparr>numFrames = 2, sampleRate = 24000\<rparr>) connectedService) =
        [\<lparr>buffer = \<lparr>numFrames = 2, sampleRate = 24000\<rparr>, connectedTo = 2,
          endedListeners = [SourcesDelete 0], startedAt = 0, stopped = False\<rparr>]
   \<and> nextStartTime (handleServerMessage_resume (audioMessage [goodPart])
        (Inr \<lparr>numFrames = 2, sampleRate = 24000\<rparr>) connectedService) = 1 / 12000
   \<and> sources (handleServerMessage_resume (audioMessage [goodPart])
        (Inr \<lparr>numFrames = 2, sampleRate = 24000\<rparr>) connectedService) = {0}
   \<and> sources (dispatchEnded 0 (handleServerMessage_resume (audioMessage [goodPart])
        (Inr \<lparr>numFrames = 2, sampleRate = 24000\<rparr>) connectedService)) = {}
   \<and> map buffer (nodes (steps exampleDecode
        [Begin 1 (audioMessage [goodPart]), Begin 2 (audioMessage [goodPart]),
         Resume (audioMessage [goodPart]) (Inr \<lparr>numFrames = 2, sampleRate = 24000\<rparr>), Ended 0,
         Resume (audioMessage [goodPart]) (Inr \<lparr>numFrames = 2, sampleRate = 24000\<rparr>)]
        connectedService)) =
        [\<lparr>numFrames = 2, sampleRate = 24000\<rparr>, \<lparr>numFrames = 2, sampleRate = 24000\<rparr>]
   \<and> startedAt (nodes (steps exampleDecode
        [Begin 1 (audioMessage [goodPart]), Begin 2 (audioMessage [goodPart]),
         Resume (audioMessage [goodPart]) (Inr \<lparr>numFrames = 2, sampleRate = 24000\<rparr>), Ended 0,
         Resume (audioMessage [goodPart]) (Inr \<lparr>numFrames = 2, sampleRate = 24000\<rparr>)]
        connectedService) ! 0)
      + duration (buffer (nodes (steps exampleDecode
        [Begin 1 (audioMessage [goodPart]), Begin 2 (audioMessage [goodPart]),
         Resume (audioMessage [goodPart]) (Inr \<lparr>numFrames = 2, sampleRate = 24000\<rparr>), Ended 0,
         Resume (audioMessage [goodPart]) (Inr \<lparr>numFrames = 2, sampleRate = 24000\<rparr>)]
        connectedService) ! 0))
      \<le> startedAt (nodes (steps exampleDecode
        [Begin 1 (audioMessage [goodPart]), Begin 2 (audioMessage [goodPart]),
         Resume (audioMessage [goodPart]) (Inr \<lparr>numFrames = 2, sampleRate = 24000\<rparr>), Ended 0,
         Resume (audioMessage [goodPart]) (Inr \<lparr>numFrames = 2, sampleRate = 24000\<rparr>)]
        connectedService) ! 1)
   \<and> startedAt (nodes (run exampleDecode
        [(1, audioMessage [goodPart]), (1, audioMessage [goodPart])] connectedService) ! 1) =
      startedAt (nodes (run exampleDecode
        [(1, audioMessage [goodPart]), (1, audioMessage [goodPart])] connectedService) ! 0)
      + duration (buffer (nodes (run exampleDecode
        [(1, audioMessage [goodPart]), (1, audioMessage [goodPart])] connectedService) ! 0))"
proof -
  let ?m = "audioMessage [goodPart]"
  let ?buf = "\<lparr>numFrames = 2, sampleRate = 24000\<rparr>"
  let ?sts = "[Begin 1 ?m, Begin 2 ?m, Resume ?m (Inr ?buf), Ended 0, Resume ?m (Inr ?buf)]"
  let ?ms = "[(1::real, ?m), (1, ?m)]"
  have h1: "outputAudioContext connectedService \<noteq> None" by (simp add: connectedService_eq)
  have h2: "outputNode connectedService \<noteq> None" by (simp add: connectedService_eq)
  have h3: "0 \<le> nextStartTime connectedService" by (simp add: connectedService_eq)
  have h4: "segment exampleDecode ?m = Some ?buf" by (rule segment_goodPart)
  have h5: "\<not> isInterrupted ?m" by (rule isInterrupted_audioMessage)
  have h6: "\<forall>x \<in> set ?sts. \<not> stepInterrupted x" using h5 by simp
  have h6': "list_all (\<lambda>x. \<not> stepInterrupted x) ?sts" using h5 by simp
  have h7: "\<forall>x \<in> set ?ms. 0 \<le> fst x \<and> segment exampleDecode (snd x) \<noteq> None
               \<and> \<not> isInterrupted (snd x)"
    using h4 h5 by simp
  have h7': "list_all (\<lambda>x. 0 \<le> fst x \<and> segment exampleDecode (snd x) \<noteq> None
                     \<and> \<not> isInterrupted (snd x)) ?ms"
    using h4 h5 by simp
  note t = enqueue_steps [OF h1 h2 h3, where decode = exampleDecode and m = ?m and buf = ?buf
      and now = 1 and sts = ?sts and ms = ?ms]
  note ta = t [THEN conjunct1, THEN mp, OF h4]
  note tb = t [THEN conjunct2, THEN conjunct1, THEN mp, OF h5]
  note tc = t [THEN conjunct2, THEN conjunct2, THEN conjunct1, THEN mp, OF h6]
  note td = t [THEN conjunct2, THEN conjunct2, THEN conjunct2, THEN mp, OF h7]
  have n: "length (nodes connectedService) = 0" by (simp add: connectedService_eq)
  have d1: "nextStartTime (fst (handleServerMessage_begin exampleDecode 1 ?m connectedService)) = 1"
    unfolding ta by (simp add: connectedService_eq)
  have d2: "snd (handleServerMessage_begin exampleDecode 1 ?m connectedService) = Some (Inr ?buf)"
    unfolding ta by simp
  have d3: "nodes (handleServerMessage_resume ?m (Inr ?buf) connectedService) =
        [\<lparr>buffer = ?buf, connectedTo = 2,
          endedListeners = [SourcesDelete 0], startedAt = 0, stopped = False\<rparr>]"
    unfolding tb [THEN conjunct1] by (simp add: connectedService_eq)
  have d4: "nextStartTime (handleServerMessage_resume ?m (Inr ?buf) connectedService) = 1 / 12000"
    unfolding tb [THEN conjunct1] by (simp add: connectedService_eq duration_def)
  have d5: "sources (handleServerMessage_resume ?m (Inr ?buf) connectedService) = {0}"
    unfolding tb [THEN conjunct1] by (simp add: connectedService_eq)
  have d6: "sources (dispatchEnded 0 (handleServerMessage_resume ?m (Inr ?buf) connectedService)) = {}"
    using tb [THEN conjunct2] by (simp add: connectedService_eq)
  have d7: "map buffer (nodes (steps exampleDecode ?sts connectedService)) = [?buf, ?buf]"
    using tc [THEN conjunct2, THEN conjunct1] by (simp add: n del: steps.simps)
  have l: "length (nodes (steps exampleDecode ?sts connectedService)) = 2"
    using arg_cong [OF d7, of length] by (simp del: steps.simps)
  have d8: "startedAt (nodes (steps exampleDecode ?sts connectedService) ! 0)
      + duration (buffer (nodes (steps exampleDecode ?sts connectedService) ! 0))
      \<le> startedAt (nodes (steps exampleDecode ?sts connectedService) ! 1)"
    using tc [THEN conjunct2, THEN conjunct2, THEN conjunct2, rule_format, of 0] l
    by (simp add: n del: steps.simps)
  have d9: "startedAt (nodes (run exampleDecode ?ms connectedService) ! 1) =
      startedAt (nodes (run exampleDecode ?ms connectedService) ! 0)
      + duration (buffer (nodes (run exampleDecode ?ms connectedService) ! 0))"
  proof -
    let ?ns = "nodes (run exampleDecode ?ms connectedService)"
    have ge: "1 \<le> startedAt (?ns ! 0)"
      using enqueue_run [OF h7 h1 h2, THEN conjunct2, THEN conjunct2, THEN conjunct2,
          THEN conjunct2, THEN conjunct2, rule_format, of 0]
      by (simp add: n del: run.simps)
    have dn: "0 \<le> duration (buffer (?ns ! 0))"
      by (rule duration_nonneg)
    have "startedAt (?ns ! 1) = max (startedAt (?ns ! 0) + duration (buffer (?ns ! 0))) 1"
      using td [THEN conjunct2, THEN conjunct2, rule_format, of 0]
      by (simp add: n del: run.simps)
    then show ?thesis using ge dn by linarith
  qed
  show ?thesis
    apply (intro conjI)
    apply (rule h1)
    apply (rule h2)
    apply (rule h3)
    apply (rule h4)
    apply (rule h5)
    apply (rule h6')
    apply (rule h7')
    apply (rule d1)
    apply (rule d2)
    apply (rule d3)
    apply (rule d4)
    apply (rule d5)
    apply (rule d6)
    apply (rule d7)
    apply (rule d8)
    apply (rule d9)
    done
qed

text \<open>
  Against C1 as stated: the handler of a first message reads the clock at 1 with the
  cursor at 0 and suspends on its decoding; the handler of a second message runs its first
  part at clock reading 2; the first handler resumes and starts its segment at 2, the
  cursor of that moment, not at the larger of its own cursor and clock readings, 1.
\<close>

theorem enqueue_overlap_counterexample:
  "snd (handleServerMessage_begin exampleDecode 1 (audioMessage [goodPart]) connectedService) =
     Some (Inr \<lparr>numFrames = 2, sampleRate = 24000\<rparr>)
   \<and> max (nextStartTime connectedService) 1 = 1
   \<and> nodes (steps exampleDecode
        [Begin 1 (audioMessage [goodPart]), Begin 2 (audioMessage [goodPart, oddPart]),
         Resume (audioMessage [goodPart]) (Inr \<lparr>numFrames = 2, sampleRate = 24000\<rparr>)]
        connectedService) =
        [\<lparr>buffer = \<lparr>numFrames = 2, sampleRate = 24000\<rparr>, connectedTo = 2,
          endedListeners = [SourcesDelete 0], startedAt = 2, stopped = False\<rparr>]"
proof -
  have h1: "outputAudioContext connectedService \<noteq> None" by (simp add: connectedService_eq)
  have h2: "outputNode connectedService \<noteq> None" by (simp add: connectedService_eq)
  have b1: "handleServerMessage_begin exampleDecode 1 (audioMessage [goodPart]) connectedService =
      (connectedService\<lparr>nextStartTime := 1\<rparr>, Some (Inr \<lparr>numFrames = 2, sampleRate = 24000\<rparr>))"
    unfolding handleServerMessage_begin_enqueue [OF segment_goodPart h1 h2]
    by (simp add: connectedService_eq)
  have h1': "outputAudioContext (connectedService\<lparr>nextStartTime := 1\<rparr>) \<noteq> None"
    by (simp add: connectedService_eq)
  have h2': "outputNode (connectedService\<lparr>nextStartTime := 1\<rparr>) \<noteq> None"
    by (simp add: connectedService_eq)
  have b2: "handleServerMessage_begin exampleDecode 2 (audioMessage [goodPart, oddPart])
        (connectedService\<lparr>nextStartTime := 1\<rparr>) =
      (connectedService\<lparr>nextStartTime := 2\<rparr>, Some (Inr \<lparr>numFrames = 2, sampleRate = 24000\<rparr>))"
    unfolding handleServerMessage_begin_enqueue [OF segment_goodPart h1' h2']
    by (simp add: connectedService_eq)
  have r: "nodes (handleServerMessage_resume (audioMessage [goodPart])
        (Inr \<lparr>numFrames = 2, sampleRate = 24000\<rparr>) (connectedService\<lparr>nextStartTime := 2\<rparr>)) =
        [\<lparr>buffer = \<lparr>numFrames = 2, sampleRate = 24000\<rparr>, connectedTo = 2,
          endedListeners = [SourcesDelete 0], startedAt = 2, stopped = False\<rparr>]"
    by (simp add: handleServerMessage_resume_def schedule_def isInterrupted_audioMessage
        connectedService_eq)
  have c1: "snd (handleServerMessage_begin exampleDecode 1 (audioMessage [goodPart]) connectedService) =
     Some (Inr \<lparr>numFrames = 2, sampleRate = 24000\<rparr>)"
    by (simp add: b1)
  have c2: "max (nextStartTime connectedService) 1 = 1" by (simp add: connectedService_eq)
  have c3: "nodes (steps exampleDecode
        [Begin 1 (audioMessage [goodPart]), Begin 2 (audioMessage [goodPart, oddPart]),
         Resume (audioMessage [goodPart]) (Inr \<lparr>numFrames = 2, sampleRate = 24000\<rparr>)]
        connectedService) =
        [\<lparr>buffer = \<lparr>numFrames = 2, sampleRate = 24000\<rparr>, connectedTo = 2,
          endedListeners = [SourcesDelete 0], startedAt = 2, stopped = False\<rparr>]"
    by (simp add: b1 b2 r)
  show ?thesis
    apply (intro conjI)
    apply (rule c1)
    apply (rule c2)
    apply (rule c3)
    done
qed

subsection \<open>C2\<close>

text \<open>
  C2. After a message that signals interruption, the active set is empty, the cursor is
  0 and every node that was active before is stopped; with the output context and gain
  node in place, the next audio message that decodes, arriving at a clock reading that
  is not negative, starts its segment exactly at that reading.
\<close>

theorem interruption_clears:
  assumes "isInterrupted m"
  shows "sources (handleServerMessage decode now m s) = {}
       \<and> nextStartTime (handleServerMessage decode now m s) = 0
       \<and> (\<forall>h \<in> sources s. h < length (nodes s) \<longrightarrow>
             stopped (nodes (handleServerMessage decode now m s) ! h))
       \<and> (outputAudioContext s \<noteq> None \<longrightarrow> outputNode s \<noteq> None \<longrightarrow> 0 \<le> now' \<longrightarrow>
            segment decode m' = Some buf \<longrightarrow> \<not> isInterrupted m' \<longrightarrow>
            nodes (handleServerMessage decode now' m' (handleServerMessage decode now m s)) =
              nodes (handleServerMessage decode now m s) @
                [\<lparr>buffer = buf, connectedTo = the (outputNode s),
                  endedListeners =
                    [SourcesDelete (length (nodes (handleServerMessage decode now m s)))],
                  startedAt = now', stopped = False\<rparr>])"
proof -
  let ?s' = "handleServerMessage decode now m s"
  from handleServerMessage_body [of decode now m s] obtain X where
    X: "?s' = handleInterruption m X" "sources s \<subseteq> sources X"
      "take (length (nodes s)) (nodes X) = nodes s"
      "outputAudioContext X = outputAudioContext s" "outputNode X = outputNode s"
    by blast
  have s': "?s' = interrupt X" using X(1) assms by simp
  have a: "sources ?s' = {}" and b: "nextStartTime ?s' = 0"
    by (simp_all add: s')
  have c: "stopped (nodes ?s' ! h)" if "h \<in> sources s" "h < length (nodes s)" for h
  proof -
    have "h < length (nodes X)" using length_nodes_body [OF X(3)] that(2) by simp
    moreover have "h \<in> sources X" using X(2) that(1) by blast
    ultimately show ?thesis by (simp add: s' nth_stopAll)
  qed
  have d: "nodes (handleServerMessage decode now' m' ?s') =
              nodes ?s' @
                [\<lparr>buffer = buf, connectedTo = the (outputNode s),
                  endedListeners = [SourcesDelete (length (nodes ?s'))],
                  startedAt = now', stopped = False\<rparr>]"
    if "outputAudioContext s \<noteq> None" "outputNode s \<noteq> None" "0 \<le> now'"
      "segment decode m' = Some buf" "\<not> isInterrupted m'"
  proof -
    have c1: "outputAudioContext ?s' \<noteq> None" "outputNode ?s' \<noteq> None"
      using that(1,2) X(4,5) by (simp_all add: s')
    have o: "outputNode ?s' = outputNode s" using X(5) by (simp add: s')
    show ?thesis
      unfolding enqueue_step [OF that(4) that(5) c1 that(3)]
      using that(3) by (simp add: b o)
  qed
  show ?thesis using a b c d by blast
qed

text \<open>
  A service with one active node, interrupted at clock reading 2; the next segment,
  arriving at 3, starts at 3.
\<close>

theorem interruption_clears_witness:
  "isInterrupted interruptMessage
   \<and> 0 \<in> sources playingService \<and> 0 < length (nodes playingService)
   \<and> outputAudioContext playingService \<noteq> None \<and> outputNode playingService \<noteq> None
   \<and> (0::real) \<le> 3
   \<and> segment exampleDecode (audioMessage [goodPart]) = Some \<lparr>numFrames = 2, sampleRate = 24000\<rparr>
   \<and> \<not> isInterrupted (audioMessage [goodPart])
   \<and> sources (handleServerMessage exampleDecode 2 interruptMessage playingService) = {}
   \<and> nextStartTime (handleServerMessage exampleDecode 2 interruptMessage playingService) = 0
   \<and> stopped (nodes (handleServerMessage exampleDecode 2 interruptMessage playingService) ! 0)
   \<and> startedAt (last (nodes (handleServerMessage exampleDecode 3 (audioMessage [goodPart])
         (handleServerMessage exampleDecode 2 interruptMessage playingService)))) = 3"
proof -
  let ?s' = "handleServerMessage exampleDecode 2 interruptMessage playingService"
  have h0: "isInterrupted interruptMessage" by (rule isInterrupted_interruptMessage)
  have h1: "0 \<in> sources playingService" by (simp add: playingService_eq)
  have h2: "0 < length (nodes playingService)" by (simp add: playingService_eq)
  have h3: "outputAudioContext playingService \<noteq> None" by (simp add: playingService_eq)
  have h4: "outputNode playingService \<noteq> None" by (simp add: playingService_eq)
  have h5: "(0::real) \<le> 3" by simp
  have h6: "segment exampleDecode (audioMessage [goodPart]) = Some \<lparr>numFrames = 2, sampleRate = 24000\<rparr>"
    by (rule segment_goodPart)
  have h7: "\<not> isInterrupted (audioMessage [goodPart])" by (rule isInterrupted_audioMessage)
  note t = interruption_clears [OF h0, of exampleDecode 2 playingService 3 "audioMessage [goodPart]"
      "\<lparr>numFrames = 2, sampleRate = 24000\<rparr>"]
  note c1 = t [THEN conjunct1]
  note c2 = t [THEN conjunct2, THEN conjunct1]
  note c3 = t [THEN conjunct2, THEN conjunct2, THEN conjunct1, rule_format, OF h1 h2]
  note c4 = t [THEN conjunct2, THEN conjunct2, THEN conjunct2, rule_format, OF h3 h4 h5 h6 h7]
  have c5: "startedAt (last (nodes (handleServerMessage exampleDecode 3 (audioMessage [goodPart]) ?s'))) = 3"
    unfolding c4 by simp
  show ?thesis
    apply (intro conjI)
    apply (rule h0)
    apply (rule h1)
    apply (rule h2)
    apply (rule h3)
    apply (rule h4)
    apply (rule h5)
    apply (rule h6)
    apply (rule h7)
    apply (rule c1)
    apply (rule c2)
    apply (rule c3)
    apply (rule c5)
    done
qed

subsection \<open>C3\<close>

text \<open>
  C3 (as amended). When the inline audio of a message does not decode (the base64
  decoder throws, or the byte buffer is empty or of odd length), the handler ends
  normally: the failure is on the console, no node is created, the active set is as it
  was, and the cursor is the larger of its old value and the clock reading, the raise
  made before the decoding is tried. For messages that follow at later clock readings,
  the nodes created and the active set are the same as if the message had carried no audio.
\<close>

theorem decode_failure_contained:
  assumes "base64Audio m = Some b" and "b \<noteq> []"
    and "decode b = None
         \<or> (\<exists>bytes. decode b = Some bytes \<and> (length bytes = 0 \<or> odd (length bytes)))"
    and "outputAudioContext s \<noteq> None" and "outputNode s \<noteq> None" and "\<not> isInterrupted m"
  shows "(\<exists>e. handleServerMessage decode now m s =
             (transcriptions m s)
               \<lparr>nextStartTime := max (nextStartTime s) now,
                console := console s @ [ConsoleError ''Error decoding audio response'' e]\<rparr>)
       \<and> sources (handleServerMessage decode now m s) = sources s
       \<and> nodes (handleServerMessage decode now m s) = nodes s
       \<and> nextStartTime (handleServerMessage decode now m s) = max (nextStartTime s) now
       \<and> ((\<forall>y \<in> set ms. now \<le> fst y) \<longrightarrow>
            nodes (run decode ms (handleServerMessage decode now m s)) =
              nodes (run decode ms (transcriptions m s))
          \<and> sources (run decode ms (handleServerMessage decode now m s)) =
              sources (run decode ms (transcriptions m s)))"
proof -
  let ?t = "transcriptions m s"
  have seg: "segment decode m = None"
    using assms(1-3) by (auto simp: segment_def decodeAudioData_def)
  from handleServerMessage_failure [OF assms(1,2) seg assms(4,5), of now] obtain e where
    "handleServerMessage decode now m s =
       handleInterruption m (caught e (?t\<lparr>nextStartTime := max (nextStartTime s) now\<rparr>))"
    by blast
  then have h: "handleServerMessage decode now m s =
      ?t\<lparr>nextStartTime := max (nextStartTime s) now,
         console := console s @ [ConsoleError ''Error decoding audio response'' e]\<rparr>"
    using assms(6) by (simp add: caught_def)
  have a: "\<exists>e. handleServerMessage decode now m s =
             ?t\<lparr>nextStartTime := max (nextStartTime s) now,
                console := console s @ [ConsoleError ''Error decoding audio response'' e]\<rparr>"
    using h by blast
  have b: "sources (handleServerMessage decode now m s) = sources s"
    and c: "nodes (handleServerMessage decode now m s) = nodes s"
    and d: "nextStartTime (handleServerMessage decode now m s) = max (nextStartTime s) now"
    by (simp_all add: h)
  have r: "nodes (run decode ms (handleServerMessage decode now m s)) = nodes (run decode ms ?t)
          \<and> sources (run decode ms (handleServerMessage decode now m s)) = sources (run decode ms ?t)"
    if later: "\<forall>y \<in> set ms. now \<le> fst y"
  proof -
    have x1: "nextStartTime ?t \<le> max (nextStartTime s) now" by simp
    have x2: "max (nextStartTime s) now \<le> max (nextStartTime ?t) now" by simp
    from run_cursor_irrelevant [OF later x1 x2, where decode = decode
        and cs = "console s @ [ConsoleError ''Error decoding audio response'' e]"]
    obtain x' cs' where
      "run decode ms (handleServerMessage decode now m s) =
         (run decode ms ?t)\<lparr>nextStartTime := x', console := cs'\<rparr>"
      unfolding h by blast
    then show ?thesis by simp
  qed
  show ?thesis using a b c d r by blast
qed

text \<open>
  A message of three bytes at clock reading 3, with one node active, and a good message
  after it at 4.
\<close>

theorem decode_failure_contained_witness:
  "base64Audio (audioMessage [oddPart]) = Some [0x41, 0x41, 0x41, 0x41]
   \<and> [0x41, 0x41, 0x41, 0x41] \<noteq> ([] :: js_string)
   \<and> (exampleDecode [0x41, 0x41, 0x41, 0x41] = None
       \<or> (\<exists>bytes. exampleDecode [0x41, 0x41, 0x41, 0x41] = Some bytes
              \<and> (length bytes = 0 \<or> odd (length bytes))))
   \<and> outputAudioContext playingService \<noteq> None \<and> outputNode playingService \<noteq> None
   \<and> \<not> isInterrupted (audioMessage [oddPart])
   \<and> list_all (\<lambda>y. 3 \<le> fst y) [(4::real, audioMessage [goodPart])]
   \<and> sources (handleServerMessage exampleDecode 3 (audioMessage [oddPart]) playingService) = {0}
   \<and> nodes (handleServerMessage exampleDecode 3 (audioMessage [oddPart]) playingService)
       = nodes playingService
   \<and> nextStartTime (handleServerMessage exampleDecode 3 (audioMessage [oddPart]) playingService) = 3
   \<and> nodes (run exampleDecode [(4, audioMessage [goodPart])]
        (handleServerMessage exampleDecode 3 (audioMessage [oddPart]) playingService))
       = nodes (run exampleDecode [(4, audioMessage [goodPart])] playingService)"
proof -
  let ?m = "audioMessage [oddPart]"
  let ?ms = "[(4::real, audioMessage [goodPart])]"
  have h1: "base64Audio ?m = Some [0x41, 0x41, 0x41, 0x41]" by (rule base64Audio_oddPart)
  have h2: "[0x41, 0x41, 0x41, 0x41] \<noteq> ([] :: js_string)" by simp
  have h3: "exampleDecode [0x41, 0x41, 0x41, 0x41] = None
       \<or> (\<exists>bytes. exampleDecode [0x41, 0x41, 0x41, 0x41] = Some bytes
              \<and> (length bytes = 0 \<or> odd (length bytes)))"
    by (simp add: exampleDecode_def)
  have h4: "outputAudioContext playingService \<noteq> None" by (simp add: playingService_eq)
  have h5: "outputNode playingService \<noteq> None" by (simp add: playingService_eq)
  have h6: "\<not> isInterrupted ?m" by (rule isInterrupted_audioMessage)
  have h7: "\<forall>y \<in> set ?ms. 3 \<le> fst y" by simp
  have h7': "list_all (\<lambda>y. 3 \<le> fst y) ?ms" by simp
  note t = decode_failure_contained [where decode = exampleDecode and now = 3 and ms = ?ms,
      OF h1 h2 h3 h4 h5 h6]
  have c2: "sources (handleServerMessage exampleDecode 3 ?m playingService) = {0}"
    using t [THEN conjunct2, THEN conjunct1] by (simp add: playingService_eq)
  note c3 = t [THEN conjunct2, THEN conjunct2, THEN conjunct1]
  have c4: "nextStartTime (handleServerMessage exampleDecode 3 ?m playingService) = 3"
    using t [THEN conjunct2, THEN conjunct2, THEN conjunct2, THEN conjunct1]
    by (simp add: playingService_eq)
  have c5: "nodes (run exampleDecode ?ms (handleServerMessage exampleDecode 3 ?m playingService))
       = nodes (run exampleDecode ?ms playingService)"
    using t [THEN conjunct2, THEN conjunct2, THEN conjunct2, THEN conjunct2, THEN mp,
        OF h7, THEN conjunct1]
    by (simp del: run.simps)
  show ?thesis
    apply (intro conjI)
    apply (rule h1)
    apply (rule h2)
    apply (rule h3)
    apply (rule h4)
    apply (rule h5)
    apply (rule h6)
    apply (rule h7')
    apply (rule c2)
    apply (rule c3)
    apply (rule c4)
    apply (rule c5)
    done
qed

text \<open>
  C3 as stated fails for the cursor: a message whose audio is three bytes, handled at
  clock reading 5 by a service whose cursor is 0, leaves the cursor at 5.
\<close>

theorem decode_failure_moves_cursor_counterexample:
  "nextStartTime connectedService = 0
   \<and> nextStartTime (handleServerMessage exampleDecode 5 (audioMessage [oddPart]) connectedService) = 5"
  by (simp add: connectedService_eq handleServerMessage_def handleServerMessage_begin_def
      handleServerMessage_resume_def handleInterruption_def isInterrupted_audioMessage
      base64Audio_oddPart exampleDecode_def decodeAudioData_def caught_def)

subsection \<open>C4\<close>

text \<open>
  C4 (as amended). Step by step. For a message that does not signal interruption, the
  part of its handler up to the \<open>await\<close> and the part after it each leave the cursor at
  or above what it was when that part began, and at the end of the first part the cursor
  is at or above the clock reading whenever the audio branch was entered; the same holds
  across the whole handler when no other step runs during its \<open>await\<close>. A part of a
  handler that runs the interruption branch leaves the cursor at 0, and so does a part of
  \<open>disconnect\<close> that runs to the end of it; a part of \<open>disconnect\<close> that suspends or is
  rejected, both parts of \<open>connect\<close>, the callbacks of the channel and \<open>ended\<close> events
  leave the cursor as it is. The cursor is not at or above the clock at all times.
\<close>

theorem cursor_steps:
  "(\<not> isInterrupted m \<longrightarrow>
      nextStartTime s \<le> nextStartTime (fst (handleServerMessage_begin decode now m s)))
   \<and> (\<not> isInterrupted m \<longrightarrow>
        nextStartTime s \<le> nextStartTime (handleServerMessage_resume m r s))
   \<and> (\<not> isInterrupted m \<longrightarrow> base64Audio m \<noteq> None \<longrightarrow> base64Audio m \<noteq> Some [] \<longrightarrow>
        outputAudioContext s \<noteq> None \<longrightarrow> outputNode s \<noteq> None \<longrightarrow>
        now \<le> nextStartTime (fst (handleServerMessage_begin decode now m s)))
   \<and> (isInterrupted m \<longrightarrow> nextStartTime (handleServerMessage_resume m r s) = 0)
   \<and> (isInterrupted m \<longrightarrow> snd (handleServerMessage_begin decode now m s) = None \<longrightarrow>
        nextStartTime (fst (handleServerMessage_begin decode now m s)) = 0)
   \<and> (\<not> isInterrupted m \<longrightarrow>
        nextStartTime s \<le> nextStartTime (handleServerMessage decode now m s))
   \<and> (\<not> isInterrupted m \<longrightarrow> base64Audio m \<noteq> None \<longrightarrow> base64Audio m \<noteq> Some [] \<longrightarrow>
        outputAudioContext s \<noteq> None \<longrightarrow> outputNode s \<noteq> None \<longrightarrow>
        now \<le> nextStartTime (handleServerMessage decode now m s))
   \<and> (isInterrupted m \<longrightarrow> nextStartTime (handleServerMessage decode now m s) = 0)
   \<and> nextStartTime (connect_begin s) = nextStartTime s
   \<and> nextStartTime (snd (connect_resume g s)) = nextStartTime s
   \<and> nextStartTime (onopen s) = nextStartTime s
   \<and> nextStartTime (onclose s) = nextStartTime s
   \<and> nextStartTime (onerror s) = nextStartTime s
   \<and> nextStartTime (dispatchEnded h s) = nextStartTime s
   \<and> nextStartTime (snd (disconnect_begin s)) =
        (if fst (disconnect_begin s) = Done then 0 else nextStartTime s)
   \<and> nextStartTime (snd (disconnect_resume a s)) =
        (if fst (disconnect_resume a s) = Done then 0 else nextStartTime s)"
proof -
  let ?b = "fst (handleServerMessage_begin decode now m s)"
  let ?s' = "handleServerMessage decode now m s"
  have p1: "\<not> isInterrupted m \<Longrightarrow> nextStartTime s \<le> nextStartTime ?b"
    using nextStartTime_begin [of m decode now s] by auto
  have p2: "\<not> isInterrupted m \<Longrightarrow> nextStartTime s \<le> nextStartTime (handleServerMessage_resume m r s)"
    by (rule nextStartTime_resume)
  have p3: "\<not> isInterrupted m \<Longrightarrow> base64Audio m \<noteq> None \<Longrightarrow> base64Audio m \<noteq> Some [] \<Longrightarrow>
        outputAudioContext s \<noteq> None \<Longrightarrow> outputNode s \<noteq> None \<Longrightarrow> now \<le> nextStartTime ?b"
    using nextStartTime_begin_entered [of m s decode now] by simp
  have p4: "isInterrupted m \<Longrightarrow> nextStartTime (handleServerMessage_resume m r s) = 0"
    by (simp add: handleServerMessage_resume_def)
  have p5: "isInterrupted m \<Longrightarrow> snd (handleServerMessage_begin decode now m s) = None \<Longrightarrow>
        nextStartTime ?b = 0"
    using handleServerMessage_begin_cases [of m s decode now] by auto
  from handleServerMessage_body [of decode now m s] obtain X where
    X: "?s' = handleInterruption m X" "nextStartTime s \<le> nextStartTime X"
      "(base64Audio m \<noteq> None \<and> base64Audio m \<noteq> Some [] \<and> outputAudioContext s \<noteq> None
          \<and> outputNode s \<noteq> None) \<longrightarrow> now \<le> nextStartTime X"
    by blast
  have p6: "\<not> isInterrupted m \<Longrightarrow> nextStartTime s \<le> nextStartTime ?s'"
    using X(1,2) by simp
  have p7: "\<not> isInterrupted m \<Longrightarrow> base64Audio m \<noteq> None \<Longrightarrow> base64Audio m \<noteq> Some [] \<Longrightarrow>
        outputAudioContext s \<noteq> None \<Longrightarrow> outputNode s \<noteq> None \<Longrightarrow> now \<le> nextStartTime ?s'"
    using X(1,3) by simp
  have p8: "isInterrupted m \<Longrightarrow> nextStartTime ?s' = 0"
    using X(1) by simp
  have q1: "nextStartTime (connect_begin s) = nextStartTime s"
    by (simp add: connect_begin_def)
  have q2: "nextStartTime (snd (connect_resume g s)) = nextStartTime s"
    by (cases g) (simp_all add: connect_resume_def)
  have q3: "nextStartTime (onopen s) = nextStartTime s"
    "nextStartTime (onclose s) = nextStartTime s" "nextStartTime (onerror s) = nextStartTime s"
    by (simp_all add: onopen_def onclose_def onerror_def startInputStreaming_def Let_def)
  have q4: "nextStartTime (dispatchEnded h s) = nextStartTime s"
    by (simp add: dispatchEnded_def nextStartTime_fold_runListener)
  have o: "nextStartTime (snd (disconnect_output u)) =
        (if fst (disconnect_output u) = Done then 0 else nextStartTime u)" for u
    by (cases "outputAudioContext u") (simp_all add: disconnect_output_def cleanupQueuedAudio_def)
  have rc: "nextStartTime (releaseCapture s) = nextStartTime s"
    by (simp add: releaseCapture_def Let_def split: option.splits)
  have q5: "nextStartTime (snd (disconnect_begin s)) =
        (if fst (disconnect_begin s) = Done then 0 else nextStartTime s)"
    using o [of "releaseCapture s"] rc
    by (cases "inputAudioContext (releaseCapture s)") (simp_all add: disconnect_begin_def Let_def)
  have q6: "nextStartTime (snd (disconnect_resume a s)) =
        (if fst (disconnect_resume a s) = Done then 0 else nextStartTime s)"
    using o [of "s\<lparr>inputAudioContext := None\<rparr>"]
    by (cases a) (simp_all add: disconnect_resume_def cleanupQueuedAudio_def)
  show ?thesis
    apply (intro conjI impI)
    apply (erule p1)
    apply (erule p2)
    apply (erule (4) p3)
    apply (erule p4)
    apply (erule (1) p5)
    apply (erule p6)
    apply (erule (4) p7)
    apply (erule p8)
    apply (rule q1)
    apply (rule q2)
    apply (rule q3(1))
    apply (rule q3(2))
    apply (rule q3(3))
    apply (rule q4)
    apply (rule q5)
    apply (rule q6)
    done
qed

text \<open>
  On the service that has played one segment: the two parts of the handler of an audio
  message and of an interruption, at clock reading 3, and the last part of a
  \<open>disconnect\<close>.
\<close>

theorem cursor_steps_witness:
  "\<not> isInterrupted (audioMessage [goodPart])
   \<and> base64Audio (audioMessage [goodPart]) \<noteq> None \<and> base64Audio (audioMessage [goodPart]) \<noteq> Some []
   \<and> outputAudioContext playingService \<noteq> None \<and> outputNode playingService \<noteq> None
   \<and> nextStartTime playingService
        \<le> nextStartTime (fst (handleServerMessage_begin exampleDecode 3 (audioMessage [goodPart])
              playingService))
   \<and> nextStartTime playingService
        \<le> nextStartTime (handleServerMessage_resume (audioMessage [goodPart])
              (Inr \<lparr>numFrames = 2, sampleRate = 24000\<rparr>) playingService)
   \<and> 3 \<le> nextStartTime (fst (handleServerMessage_begin exampleDecode 3 (audioMessage [goodPart])
              playingService))
   \<and> nextStartTime playingService
        \<le> nextStartTime (handleServerMessage exampleDecode 3 (audioMessage [goodPart]) playingService)
   \<and> 3 \<le> nextStartTime (handleServerMessage exampleDecode 3 (audioMessage [goodPart]) playingService)
   \<and> isInterrupted interruptMessage
   \<and> nextStartTime (handleServerMessage_resume interruptMessage
        (Inr \<lparr>numFrames = 2, sampleRate = 24000\<rparr>) playingService) = 0
   \<and> snd (handleServerMessage_begin exampleDecode 3 interruptMessage playingService) = None
   \<and> nextStartTime (fst (handleServerMessage_begin exampleDecode 3 interruptMessage playingService)) = 0
   \<and> nextStartTime (handleServerMessage exampleDecode 3 interruptMessage playingService) = 0
   \<and> fst (disconnect_resume OutputClose playingService) = Done
   \<and> nextStartTime (snd (disconnect_resume OutputClose playingService)) = 0"
proof -
  let ?m = "audioMessage [goodPart]"
  let ?r = "Inr \<lparr>numFrames = 2, sampleRate = 24000\<rparr> :: error + AudioBuffer"
  have h1: "\<not> isInterrupted ?m" by (rule isInterrupted_audioMessage)
  have h2: "base64Audio ?m \<noteq> None" "base64Audio ?m \<noteq> Some []"
    by (simp_all add: base64Audio_def audioMessage_def goodPart_def emptyContent_def)
  have h3: "outputAudioContext playingService \<noteq> None" by (simp add: playingService_eq)
  have h4: "outputNode playingService \<noteq> None" by (simp add: playingService_eq)
  have h5: "isInterrupted interruptMessage" by (rule isInterrupted_interruptMessage)
  have h6: "snd (handleServerMessage_begin exampleDecode 3 interruptMessage playingService) = None"
    by (simp add: handleServerMessage_begin_def base64Audio_interruptMessage)
  have h7: "fst (disconnect_resume OutputClose playingService) = Done"
    by (simp add: disconnect_resume_def)
  note t = cursor_steps [where m = ?m and s = playingService and decode = exampleDecode
      and now = 3 and r = ?r and a = OutputClose]
  note u = cursor_steps [where m = interruptMessage and s = playingService
      and decode = exampleDecode and now = 3 and r = ?r]
  note c1 = t [THEN conjunct1, THEN mp, OF h1]
  note c2 = t [THEN conjunct2, THEN conjunct1, THEN mp, OF h1]
  note c3 = t [THEN conjunct2, THEN conjunct2, THEN conjunct1, rule_format, OF h1 h2 h3 h4]
  note c4 = u [THEN conjunct2, THEN conjunct2, THEN conjunct2, THEN conjunct1, THEN mp, OF h5]
  note c5 = u [THEN conjunct2, THEN conjunct2, THEN conjunct2, THEN conjunct2, THEN conjunct1,
      rule_format, OF h5 h6]
  note c6 = t [THEN conjunct2, THEN conjunct2, THEN conjunct2, THEN conjunct2, THEN conjunct2,
      THEN conjunct1, THEN mp, OF h1]
  note c7 = t [THEN conjunct2, THEN conjunct2, THEN conjunct2, THEN conjunct2, THEN conjunct2,
      THEN conjunct2, THEN conjunct1, rule_format, OF h1 h2 h3 h4]
  note c8 = u [THEN conjunct2, THEN conjunct2, THEN conjunct2, THEN conjunct2, THEN conjunct2,
      THEN conjunct2, THEN conjunct2, THEN conjunct1, THEN mp, OF h5]
  note c16 = t [THEN conjunct2, THEN conjunct2, THEN conjunct2, THEN conjunct2, THEN conjunct2,
      THEN conjunct2, THEN conjunct2, THEN conjunct2, THEN conjunct2, THEN conjunct2,
      THEN conjunct2, THEN conjunct2, THEN conjunct2, THEN conjunct2, THEN conjunct2]
  have d: "nextStartTime (snd (disconnect_resume OutputClose playingService)) = 0"
    using c16 by (simp add: h7)
  show ?thesis
    apply (intro conjI)
    apply (rule h1)
    apply (rule h2(1))
    apply (rule h2(2))
    apply (rule h3)
    apply (rule h4)
    apply (rule c1)
    apply (rule c2)
    apply (rule c3)
    apply (rule c6)
    apply (rule c7)
    apply (rule h5)
    apply (rule c4)
    apply (rule h6)
    apply (rule c5)
    apply (rule c8)
    apply (rule h7)
    apply (rule d)
    done
qed

text \<open>
  C4 as stated fails in its second half: a message without audio handled at clock
  reading 5 by a service that has played nothing leaves the cursor at 0, below the
  clock; so does an interruption handled at clock reading 5.
\<close>

theorem cursor_below_clock_counterexample:
  "\<not> (5 \<le> nextStartTime (handleServerMessage exampleDecode 5 (audioMessage [Part None])
                              connectedService))
   \<and> \<not> (5 \<le> nextStartTime (handleServerMessage exampleDecode 5 interruptMessage playingService))"
proof -
  have "base64Audio (audioMessage [Part None]) = None"
    by (simp add: base64Audio_def audioMessage_def emptyContent_def)
  then have a: "handleServerMessage exampleDecode 5 (audioMessage [Part None]) connectedService =
          connectedService"
    using handleServerMessage_skip [of "audioMessage [Part None]" connectedService exampleDecode 5]
    by (simp add: isInterrupted_audioMessage)
  have b: "handleServerMessage exampleDecode 5 interruptMessage playingService =
          interrupt playingService"
    using handleServerMessage_skip [of interruptMessage playingService exampleDecode 5]
    by (simp add: base64Audio_interruptMessage isInterrupted_interruptMessage)
  have c: "nextStartTime connectedService = 0" by (simp add: connectedService_eq)
  show ?thesis unfolding a b by (simp add: c)
qed

subsection \<open>C5\<close>

text \<open>
  C5 (as amended). An audio message is suspended on its decoding; a message that signals
  interruption is then handled to its end, as it is when it carries no audio of its own
  to wait for; then the decoding completes. The late segment is started at 0, the
  cursor the interruption left, and not at the cursor raised before the decoding; it is
  the one node added; every node that was active before is stopped and none of them is
  in the active set.
\<close>

theorem interrupt_during_decode:
  assumes "segment decode m = Some buf"
    and "outputAudioContext s \<noteq> None" and "outputNode s \<noteq> None"
    and "isInterrupted mi"
    and "snd (handleServerMessage_begin decode now' mi
                (fst (handleServerMessage_begin decode now m s))) = None"
  shows "snd (handleServerMessage_begin decode now m s) = Some (Inr buf)
       \<and> nextStartTime (fst (handleServerMessage_begin decode now m s)) = max (nextStartTime s) now
       \<and> (let s2 = fst (handleServerMessage_begin decode now' mi
                          (fst (handleServerMessage_begin decode now m s)));
               s3 = handleServerMessage_resume m (Inr buf) s2
           in sources s2 = {} \<and> nextStartTime s2 = 0
              \<and> length (nodes s3) = length (nodes s) + 1
              \<and> buffer (nodes s3 ! length (nodes s)) = buf
              \<and> startedAt (nodes s3 ! length (nodes s)) = 0
              \<and> sources s3 \<subseteq> {length (nodes s)}
              \<and> (\<forall>h \<in> sources s. h < length (nodes s) \<longrightarrow> stopped (nodes s3 ! h))
              \<and> (\<not> isInterrupted m \<longrightarrow>
                    sources s3 = {length (nodes s)} \<and> nextStartTime s3 = duration buf
                    \<and> \<not> stopped (nodes s3 ! length (nodes s))))"
proof -
  let ?s1 = "(transcriptions m s)\<lparr>nextStartTime := max (nextStartTime s) now\<rparr>"
  have b1: "handleServerMessage_begin decode now m s = (?s1, Some (Inr buf))"
    by (rule handleServerMessage_begin_enqueue [OF assms(1-3)])
  define s2 where "s2 = fst (handleServerMessage_begin decode now' mi ?s1)"
  define s3 where "s3 = handleServerMessage_resume m (Inr buf) s2"
  from handleServerMessage_begin_finished [of decode now' mi ?s1] assms(5) obtain X where
    X: "s2 = handleInterruption mi X" "sources X = sources s" "nodes X = nodes s"
      "outputAudioContext X = outputAudioContext s" "outputNode X = outputNode s"
    unfolding s2_def b1 by auto
  have s2: "s2 = interrupt X" using X(1) assms(4) by simp
  obtain c where c: "outputAudioContext s2 = Some c"
    using assms(2) X(4) by (auto simp: s2)
  obtain g where g: "outputNode s2 = Some g"
    using assms(3) X(5) by (auto simp: s2)
  define nd where "nd = \<lparr>buffer = buf, connectedTo = g,
                endedListeners = [SourcesDelete (length (nodes s))],
                startedAt = 0, stopped = False\<rparr>"
  have sch: "schedule buf s2 =
      s2\<lparr>nodes := stopAll (sources s) (nodes s) @ [nd],
         nextStartTime := duration buf,
         sources := {length (nodes s)}\<rparr>"
    by (simp add: schedule_def c g nd_def) (simp add: s2 X(2,3))
  have s3: "s3 = handleInterruption m (schedule buf s2)"
    by (simp add: s3_def handleServerMessage_resume_def)
  have len: "length (nodes s3) = length (nodes s) + 1"
    by (simp add: s3 sch handleInterruption_def)
  have new: "nodes s3 ! length (nodes s) = nd \<or> nodes s3 ! length (nodes s) = nd\<lparr>stopped := True\<rparr>"
    by (simp add: s3 sch handleInterruption_def nth_stopAll nth_append)
  have old: "stopped (nodes s3 ! h)" if "h \<in> sources s" "h < length (nodes s)" for h
    using that by (simp add: s3 sch handleInterruption_def nth_stopAll nth_append)
  have src: "sources s3 \<subseteq> {length (nodes s)}"
    by (simp add: s3 sch handleInterruption_def)
  have ni: "sources s3 = {length (nodes s)} \<and> nextStartTime s3 = duration buf
                    \<and> \<not> stopped (nodes s3 ! length (nodes s))" if "\<not> isInterrupted m"
    using that by (simp add: s3 sch nth_append nd_def)
  have p1: "buffer (nodes s3 ! length (nodes s)) = buf"
    and p2: "startedAt (nodes s3 ! length (nodes s)) = 0"
    using new by (auto simp: nd_def)
  have q: "sources s2 = {}" "nextStartTime s2 = 0" by (simp_all add: s2)
  have "sources s2 = {} \<and> nextStartTime s2 = 0
              \<and> length (nodes s3) = length (nodes s) + 1
              \<and> buffer (nodes s3 ! length (nodes s)) = buf
              \<and> startedAt (nodes s3 ! length (nodes s)) = 0
              \<and> sources s3 \<subseteq> {length (nodes s)}
              \<and> (\<forall>h \<in> sources s. h < length (nodes s) \<longrightarrow> stopped (nodes s3 ! h))
              \<and> (\<not> isInterrupted m \<longrightarrow>
                    sources s3 = {length (nodes s)} \<and> nextStartTime s3 = duration buf
                    \<and> \<not> stopped (nodes s3 ! length (nodes s)))"
    using q len p1 p2 src old ni by blast
  then show ?thesis
    unfolding s3_def s2_def by (simp add: b1 Let_def)
qed

text \<open>
  One node active and the cursor past 1; an audio message at clock reading 2 raises the
  cursor to 2 and is suspended; the interruption is handled; the segment then starts at 0.
\<close>

theorem interrupt_during_decode_witness:
  "segment exampleDecode (audioMessage [goodPart]) = Some \<lparr>numFrames = 2, sampleRate = 24000\<rparr>
   \<and> outputAudioContext playingService \<noteq> None \<and> outputNode playingService \<noteq> None
   \<and> isInterrupted interruptMessage
   \<and> snd (handleServerMessage_begin exampleDecode 2 interruptMessage
            (fst (handleServerMessage_begin exampleDecode 2 (audioMessage [goodPart])
                    playingService))) = None
   \<and> 0 \<in> sources playingService \<and> 0 < length (nodes playingService)
   \<and> \<not> isInterrupted (audioMessage [goodPart])
   \<and> nextStartTime (fst (handleServerMessage_begin exampleDecode 2 (audioMessage [goodPart])
                            playingService)) = 2
   \<and> startedAt (nodes (handleServerMessage_resume (audioMessage [goodPart])
        (Inr \<lparr>numFrames = 2, sampleRate = 24000\<rparr>)
        (fst (handleServerMessage_begin exampleDecode 2 interruptMessage
            (fst (handleServerMessage_begin exampleDecode 2 (audioMessage [goodPart])
                    playingService))))) ! 1) = 0
   \<and> stopped (nodes (handleServerMessage_resume (audioMessage [goodPart])
        (Inr \<lparr>numFrames = 2, sampleRate = 24000\<rparr>)
        (fst (handleServerMessage_begin exampleDecode 2 interruptMessage
            (fst (handleServerMessage_begin exampleDecode 2 (audioMessage [goodPart])
                    playingService))))) ! 0)
   \<and> sources (handleServerMessage_resume (audioMessage [goodPart])
        (Inr \<lparr>numFrames = 2, sampleRate = 24000\<rparr>)
        (fst (handleServerMessage_begin exampleDecode 2 interruptMessage
            (fst (handleServerMessage_begin exampleDecode 2 (audioMessage [goodPart])
                    playingService))))) = {1}"
proof -
  let ?m = "audioMessage [goodPart]"
  let ?buf = "\<lparr>numFrames = 2, sampleRate = 24000\<rparr>"
  let ?s1 = "fst (handleServerMessage_begin exampleDecode 2 ?m playingService)"
  let ?s2 = "fst (handleServerMessage_begin exampleDecode 2 interruptMessage ?s1)"
  let ?s3 = "handleServerMessage_resume ?m (Inr ?buf) ?s2"
  have h1: "segment exampleDecode ?m = Some ?buf" by (rule segment_goodPart)
  have h2: "outputAudioContext playingService \<noteq> None" by (simp add: playingService_eq)
  have h3: "outputNode playingService \<noteq> None" by (simp add: playingService_eq)
  have h4: "isInterrupted interruptMessage" by (rule isInterrupted_interruptMessage)
  have h5: "snd (handleServerMessage_begin exampleDecode 2 interruptMessage ?s1) = None"
    by (simp add: handleServerMessage_begin_def [of _ _ interruptMessage]
        base64Audio_interruptMessage)
  have h6: "0 \<in> sources playingService" by (simp add: playingService_eq)
  have h7: "0 < length (nodes playingService)" by (simp add: playingService_eq)
  have h8: "\<not> isInterrupted ?m" by (rule isInterrupted_audioMessage)
  have n: "length (nodes playingService) = 1" by (simp add: playingService_eq)
  note t = interrupt_during_decode [where decode = exampleDecode and now = 2 and now' = 2,
      OF h1 h2 h3 h4 h5]
  have c2: "nextStartTime ?s1 = 2"
    using t [THEN conjunct2, THEN conjunct1] by (simp add: playingService_eq)
  note u = t [THEN conjunct2, THEN conjunct2, unfolded Let_def n]
  note c5 = u [THEN conjunct2, THEN conjunct2, THEN conjunct2, THEN conjunct2, THEN conjunct1]
  note c7 = u [THEN conjunct2, THEN conjunct2, THEN conjunct2, THEN conjunct2, THEN conjunct2,
      THEN conjunct2, THEN conjunct1, THEN bspec, OF h6, THEN mp]
  note c8 = u [THEN conjunct2, THEN conjunct2, THEN conjunct2, THEN conjunct2, THEN conjunct2,
      THEN conjunct2, THEN conjunct2, THEN mp, OF h8, THEN conjunct1]
  have c7': "stopped (nodes ?s3 ! 0)" by (rule c7) simp
  show ?thesis
    apply (intro conjI)
    apply (rule h1)
    apply (rule h2)
    apply (rule h3)
    apply (rule h4)
    apply (rule h5)
    apply (rule h6)
    apply (rule h7)
    apply (rule h8)
    apply (rule c2)
    apply (rule c5)
    apply (rule c7')
    apply (rule c8)
    done
qed

text \<open>
  C5 as stated fails when the interrupt message carries audio of its own: its handler is
  suspended on that decoding before it reaches the interruption branch, so the earlier
  segment, completing first, is started at the cursor raised before the interruption
  (2, not 0), and the node active before is still in the active set and not stopped.
\<close>

theorem interrupt_with_audio_waits_counterexample:
  "snd (handleServerMessage_begin exampleDecode 2 (interruptAudioMessage [goodPart])
          (fst (handleServerMessage_begin exampleDecode 2 (audioMessage [goodPart])
                  playingService)))
     = Some (Inr \<lparr>numFrames = 2, sampleRate = 24000\<rparr>)
   \<and> startedAt (nodes (handleServerMessage_resume (audioMessage [goodPart])
        (Inr \<lparr>numFrames = 2, sampleRate = 24000\<rparr>)
        (fst (handleServerMessage_begin exampleDecode 2 (interruptAudioMessage [goodPart])
            (fst (handleServerMessage_begin exampleDecode 2 (audioMessage [goodPart])
                    playingService))))) ! 1) = 2
   \<and> \<not> stopped (nodes (handleServerMessage_resume (audioMessage [goodPart])
        (Inr \<lparr>numFrames = 2, sampleRate = 24000\<rparr>)
        (fst (handleServerMessage_begin exampleDecode 2 (interruptAudioMessage [goodPart])
            (fst (handleServerMessage_begin exampleDecode 2 (audioMessage [goodPart])
                    playingService))))) ! 0)
   \<and> sources (handleServerMessage_resume (audioMessage [goodPart])
        (Inr \<lparr>numFrames = 2, sampleRate = 24000\<rparr>)
        (fst (handleServerMessage_begin exampleDecode 2 (interruptAudioMessage [goodPart])
            (fst (handleServerMessage_begin exampleDecode 2 (audioMessage [goodPart])
                    playingService))))) = {0, 1}"
proof -
  let ?buf = "\<lparr>numFrames = 2, sampleRate = 24000\<rparr>"
  let ?mi = "interruptAudioMessage [goodPart]"
  have h2: "outputAudioContext playingService \<noteq> None" by (simp add: playingService_eq)
  have h3: "outputNode playingService \<noteq> None" by (simp add: playingService_eq)
  have s1: "fst (handleServerMessage_begin exampleDecode 2 (audioMessage [goodPart]) playingService)
      = playingService\<lparr>nextStartTime := 2\<rparr>"
  proof -
    have n: "max (nextStartTime playingService) 2 = 2" by (simp add: playingService_eq)
    show ?thesis
      unfolding handleServerMessage_begin_enqueue [OF segment_goodPart h2 h3] fst_conv n
      by simp
  qed
  have seg: "segment exampleDecode ?mi = Some ?buf"
    by (simp add: segment_def base64Audio_def interruptAudioMessage_def goodPart_def
        exampleDecode_def decodeAudioData_def emptyContent_def)
  have t: "transcriptions ?mi u = u" for u
    by (simp add: transcriptions_def interruptAudioMessage_def emptyContent_def)
  have c: "outputAudioContext (playingService\<lparr>nextStartTime := 2\<rparr>) \<noteq> None"
    "outputNode (playingService\<lparr>nextStartTime := 2\<rparr>) \<noteq> None"
    by (simp_all add: playingService_eq)
  have b2: "handleServerMessage_begin exampleDecode 2 ?mi (playingService\<lparr>nextStartTime := 2\<rparr>)
      = (playingService\<lparr>nextStartTime := 2\<rparr>, Some (Inr ?buf))"
    by (simp add: handleServerMessage_begin_enqueue [OF seg c] t)
  have s3: "handleServerMessage_resume (audioMessage [goodPart]) (Inr ?buf)
        (playingService\<lparr>nextStartTime := 2\<rparr>)
      = schedule ?buf (playingService\<lparr>nextStartTime := 2\<rparr>)"
    by (simp add: handleServerMessage_resume_def isInterrupted_audioMessage)
  show ?thesis
    unfolding s1 b2 fst_conv snd_conv s3
    by (simp add: schedule_def playingService_eq insert_commute)
qed

subsection \<open>C6\<close>




subsection \<open>C7\<close>

text \<open>
  C7 (as amended). A run of fragments of one speaker, the first with text that is not
  blank and arriving when no utterance of that speaker is pending, all but the last not
  final, yields one utterance: the concatenation of the texts, with the identifier and
  time of the first fragment and the finality of the last. After a final last fragment,
  the next fragment whose text is not blank starts a new utterance, whoever speaks.
\<close>

theorem transcript_accumulation:
  assumes "\<not> pending u prev" and "trim (fragText f0) \<noteq> []"
    and "fragIsUser f0 = u" and "\<not> fragIsFinal f0"
    and "\<forall>f \<in> set mid. fragIsUser f = u \<and> \<not> fragIsFinal f"
    and "fragIsUser fl = u"
  shows "feed (f0 # mid @ [fl]) prev =
           prev @ [\<lparr>id' = fragId f0, role = (if u then User else Model),
                    text' = fragText f0 @ concat (map fragText mid) @ fragText fl,
                    timestamp = fragDate f0, isFinal = fragIsFinal fl\<rparr>]
       \<and> (fragIsFinal fl \<longrightarrow> trim (fragText g) \<noteq> [] \<longrightarrow>
            deliver g (feed (f0 # mid @ [fl]) prev) =
              feed (f0 # mid @ [fl]) prev @
                [\<lparr>id' = fragId g, role = (if fragIsUser g then User else Model),
                  text' = fragText g, timestamp = fragDate g, isFinal = fragIsFinal g\<rparr>])"
proof -
  define r where "r = (if u then User else Model)"
  define m0 where "m0 = \<lparr>id' = fragId f0, role = r, text' = fragText f0,
              timestamp = fragDate f0, isFinal = False\<rparr>"
  define m1 where "m1 = m0\<lparr>text' := text' m0 @ concat (map fragText mid)\<rparr>"
  define m2 where "m2 = m1\<lparr>text' := text' m1 @ fragText fl, isFinal := fragIsFinal fl\<rparr>"
  have a: "deliver f0 prev = prev @ [m0]"
    using assms(1-4) by (simp add: deliver_def onMessage_new m0_def r_def)
  have b: "feed mid (prev @ [m0]) = prev @ [m1]"
    unfolding m1_def using assms(5) by (intro feed_pending) (auto simp: m0_def r_def)
  have p: "pending u (prev @ [m1])"
    by (simp add: pending_def m1_def m0_def r_def)
  have c: "deliver fl (prev @ [m1]) = prev @ [m2]"
    using assms(6) p by (simp add: deliver_def onMessage_append m2_def)
  have "feed (f0 # mid @ [fl]) prev = feed [fl] (feed mid (deliver f0 prev))"
    by (simp add: feed_append)
  then have r: "feed (f0 # mid @ [fl]) prev = prev @ [m2]"
    by (simp add: a b c)
  have m2: "m2 = \<lparr>id' = fragId f0, role = (if u then User else Model),
                    text' = fragText f0 @ concat (map fragText mid) @ fragText fl,
                    timestamp = fragDate f0, isFinal = fragIsFinal fl\<rparr>"
    by (simp add: m2_def m1_def m0_def r_def)
  have n: "fragIsFinal fl \<Longrightarrow> \<not> pending (fragIsUser g) (prev @ [m2])"
    by (simp add: pending_def m2)
  have d: "fragIsFinal fl \<Longrightarrow> trim (fragText g) \<noteq> [] \<Longrightarrow>
        deliver g (prev @ [m2]) = (prev @ [m2]) @
                [\<lparr>id' = fragId g, role = (if fragIsUser g then User else Model),
                  text' = fragText g, timestamp = fragDate g, isFinal = fragIsFinal g\<rparr>]"
    unfolding deliver_def by (rule onMessage_new [OF n])
  show ?thesis
    unfolding r using d unfolding m2 by blast
qed

text \<open>
  The example of the specification: "ni hao" (U+4F60 U+597D) not final, then
  ", wo yao baoxiu" final, give one final utterance; "bingxiang" then starts a new one.
\<close>

theorem transcript_accumulation_witness:
  "\<not> pending True []
   \<and> trim (fragText \<lparr>fragId = [0x31], fragDate = 1, fragText = [0x4F60, 0x597D],
                    fragIsUser = True, fragIsFinal = False\<rparr>) \<noteq> []
   \<and> feed [\<lparr>fragId = [0x31], fragDate = 1, fragText = [0x4F60, 0x597D],
             fragIsUser = True, fragIsFinal = False\<rparr>,
           \<lparr>fragId = [0x32], fragDate = 2, fragText = [0xFF0C, 0x6211, 0x8981, 0x62A5, 0x4FEE],
             fragIsUser = True, fragIsFinal = True\<rparr>] []
       = [\<lparr>id' = [0x31], role = User,
           text' = [0x4F60, 0x597D, 0xFF0C, 0x6211, 0x8981, 0x62A5, 0x4FEE],
           timestamp = 1, isFinal = True\<rparr>]
   \<and> deliver \<lparr>fragId = [0x33], fragDate = 3, fragText = [0x51B0, 0x7BB1],
               fragIsUser = True, fragIsFinal = False\<rparr>
        (feed [\<lparr>fragId = [0x31], fragDate = 1, fragText = [0x4F60, 0x597D],
                 fragIsUser = True, fragIsFinal = False\<rparr>,
               \<lparr>fragId = [0x32], fragDate = 2, fragText = [0xFF0C, 0x6211, 0x8981, 0x62A5, 0x4FEE],
                 fragIsUser = True, fragIsFinal = True\<rparr>] [])
       = [\<lparr>id' = [0x31], role = User,
           text' = [0x4F60, 0x597D, 0xFF0C, 0x6211, 0x8981, 0x62A5, 0x4FEE],
           timestamp = 1, isFinal = True\<rparr>,
          \<lparr>id' = [0x33], role = User, text' = [0x51B0, 0x7BB1], timestamp = 3, isFinal = False\<rparr>]"
proof -
  let ?f0 = "\<lparr>fragId = [0x31], fragDate = 1, fragText = [0x4F60, 0x597D],
              fragIsUser = True, fragIsFinal = False\<rparr>"
  let ?fl = "\<lparr>fragId = [0x32], fragDate = 2, fragText = [0xFF0C, 0x6211, 0x8981, 0x62A5, 0x4FEE],
              fragIsUser = True, fragIsFinal = True\<rparr>"
  let ?g = "\<lparr>fragId = [0x33], fragDate = 3, fragText = [0x51B0, 0x7BB1],
             fragIsUser = True, fragIsFinal = False\<rparr>"
  have h1: "\<not> pending True []" by (simp add: pending_def)
  have h2: "trim (fragText ?f0) \<noteq> []" by (simp add: trim_def isWhiteSpace_def)
  have h3: "trim (fragText ?g) \<noteq> []" by (simp add: trim_def isWhiteSpace_def)
  have h4: "\<forall>f \<in> set []. fragIsUser f = True \<and> \<not> fragIsFinal f" by simp
  have h5: "fragIsUser ?f0 = True" "\<not> fragIsFinal ?f0" "fragIsUser ?fl = True" by simp_all
  have e: "fragIsFinal ?fl" by simp
  note t = transcript_accumulation [of True "[]" ?f0 "[]" ?fl ?g, OF h1 h2 h5(1) h5(2) h4 h5(3)]
  note t1 = t [THEN conjunct1]
  note t2 = t [THEN conjunct2, rule_format, OF e h3]
  have u1: "feed [?f0, ?fl] [] = [\<lparr>id' = [0x31], role = User,
           text' = [0x4F60, 0x597D, 0xFF0C, 0x6211, 0x8981, 0x62A5, 0x4FEE],
           timestamp = 1, isFinal = True\<rparr>]"
    using t1 by (simp del: feed.simps)
  have u2: "deliver ?g (feed [?f0, ?fl] []) = [\<lparr>id' = [0x31], role = User,
           text' = [0x4F60, 0x597D, 0xFF0C, 0x6211, 0x8981, 0x62A5, 0x4FEE],
           timestamp = 1, isFinal = True\<rparr>,
          \<lparr>id' = [0x33], role = User, text' = [0x51B0, 0x7BB1], timestamp = 3, isFinal = False\<rparr>]"
    using t2 unfolding u1 append_Nil by (simp del: feed.simps)
  show ?thesis using h1 h2 u1 u2 by (simp del: feed.simps)
qed

text \<open>
  C7 as stated fails for a blank fragment: after a final utterance, a fragment that is a
  single space starts no new utterance; the transcript stays as it was.
\<close>

theorem blank_after_final_counterexample:
  "deliver \<lparr>fragId = [0x32], fragDate = 2, fragText = [0x20], fragIsUser = True,
             fragIsFinal = False\<rparr>
     (feed [\<lparr>fragId = [0x31], fragDate = 1, fragText = [0x4F60, 0x597D], fragIsUser = True,
             fragIsFinal = True\<rparr>] [])
   = [\<lparr>id' = [0x31], role = User, text' = [0x4F60, 0x597D], timestamp = 1, isFinal = True\<rparr>]"
  by (simp add: deliver_def onMessage_def trim_def isWhiteSpace_def)

subsection \<open>C8\<close>

text \<open>
  C8 (as amended). When the microphone is refused, \<open>connect\<close> rejects with the error it
  was given, after a single request; the part of \<open>connect\<close> that runs after the refusal
  only logs the error. No stream, session or capture node is acquired. The
  session is not torn down: the two contexts and the gain node created before the
  request stay in the fields, the contexts open. A later \<open>disconnect\<close>, run to its end,
  closes both contexts and clears their fields; the field of the gain node is never
  cleared.
\<close>

theorem microphone_denied:
  "fst (connect (Rejected err) s) = Some err
   \<and> getUserMediaCalls (snd (connect (Rejected err) s)) = getUserMediaCalls s + 1
   \<and> stream (snd (connect (Rejected err) s)) = stream s
   \<and> session (snd (connect (Rejected err) s)) = session s
   \<and> processor (snd (connect (Rejected err) s)) = processor s
   \<and> source (snd (connect (Rejected err) s)) = source s
   \<and> inputAudioContext (snd (connect (Rejected err) s)) = Some (allocated s)
   \<and> outputAudioContext (snd (connect (Rejected err) s)) = Some (allocated s + 1)
   \<and> outputNode (snd (connect (Rejected err) s)) = Some (allocated s + 2)
   \<and> (reachable s \<longrightarrow>
        allocated s \<notin> closedContexts (snd (connect (Rejected err) s))
      \<and> allocated s + 1 \<notin> closedContexts (snd (connect (Rejected err) s))
      \<and> fst (disconnect (snd (connect (Rejected err) s))) = Done
      \<and> allocated s \<in> closedContexts (snd (disconnect (snd (connect (Rejected err) s))))
      \<and> allocated s + 1 \<in> closedContexts (snd (disconnect (snd (connect (Rejected err) s))))
      \<and> inputAudioContext (snd (disconnect (snd (connect (Rejected err) s)))) = None
      \<and> outputAudioContext (snd (disconnect (snd (connect (Rejected err) s)))) = None
      \<and> outputNode (snd (disconnect (snd (connect (Rejected err) s)))) = Some (allocated s + 2))
   \<and> connect_resume (Rejected err) s =
        (Some err, s\<lparr>console := console s @ [ConsoleError ''Microphone access denied'' err]\<rparr>)"
proof -
  define s' where "s' = snd (connect (Rejected err) s)"
  have s': "s' = (connect_begin s)\<lparr>console := console (connect_begin s) @
                     [ConsoleError ''Microphone access denied'' err]\<rparr>"
    by (simp add: s'_def connect_def connect_resume_def)
  have a: "fst (connect (Rejected err) s) = Some err"
    by (simp add: connect_def connect_resume_def)
  have b: "getUserMediaCalls s' = getUserMediaCalls s + 1" "stream s' = stream s"
    "session s' = session s" "processor s' = processor s" "source s' = source s"
    "inputAudioContext s' = Some (allocated s)" "outputAudioContext s' = Some (allocated s + 1)"
    "outputNode s' = Some (allocated s + 2)"
    by (simp_all add: s' connect_begin_def)
  have c: "allocated s \<notin> closedContexts s' \<and> allocated s + 1 \<notin> closedContexts s'
      \<and> fst (disconnect s') = Done
      \<and> allocated s \<in> closedContexts (snd (disconnect s'))
      \<and> allocated s + 1 \<in> closedContexts (snd (disconnect s'))
      \<and> inputAudioContext (snd (disconnect s')) = None
      \<and> outputAudioContext (snd (disconnect s')) = None
      \<and> outputNode (snd (disconnect s')) = Some (allocated s + 2)" if r: "reachable s"
  proof -
    have k: "closedContexts s \<subseteq> {..<allocated s}"
      using reachable_knownObjects [OF r] by (simp add: knownObjects_def)
    have cl: "closedContexts s' = closedContexts s" by (simp add: s' connect_begin_def)
    have n: "allocated s \<notin> closedContexts s'" "allocated s + 1 \<notin> closedContexts s'"
      using k by (auto simp: cl)
    have o: "contextsOpen s'"
      using n b(6,7) by (simp add: contextsOpen_def)
    note disconnect_open [OF o]
    then show ?thesis using n b(6,7,8) by simp
  qed
  have e: "connect_resume (Rejected err) s =
        (Some err, s\<lparr>console := console s @ [ConsoleError ''Microphone access denied'' err]\<rparr>)"
    by (simp add: connect_resume_def)
  show ?thesis
    unfolding s'_def [symmetric] using a b c e by blast
qed

text \<open>A new service refused the microphone, then disconnected.\<close>

theorem microphone_denied_witness:
  "reachable newService
   \<and> fst (connect (Rejected NotAllowedError) newService) = Some NotAllowedError
   \<and> getUserMediaCalls (snd (connect (Rejected NotAllowedError) newService)) = 1
   \<and> stream (snd (connect (Rejected NotAllowedError) newService)) = None
   \<and> fst (disconnect (snd (connect (Rejected NotAllowedError) newService))) = Done
   \<and> 0 \<in> closedContexts (snd (disconnect (snd (connect (Rejected NotAllowedError) newService))))
   \<and> 1 \<in> closedContexts (snd (disconnect (snd (connect (Rejected NotAllowedError) newService))))
   \<and> outputNode (snd (disconnect (snd (connect (Rejected NotAllowedError) newService)))) = Some 2"
proof -
  have r: "reachable newService" by (rule reachable.new)
  have al: "allocated newService = 0" by (simp add: newService_def)
  note t = microphone_denied [of NotAllowedError newService]
  note c1 = t [THEN conjunct1]
  have c2: "getUserMediaCalls (snd (connect (Rejected NotAllowedError) newService)) = 1"
    using t [THEN conjunct2, THEN conjunct1] by (simp add: newService_def)
  have c3: "stream (snd (connect (Rejected NotAllowedError) newService)) = None"
    using t [THEN conjunct2, THEN conjunct2, THEN conjunct1] by (simp add: newService_def)
  note u = t [THEN conjunct2, THEN conjunct2, THEN conjunct2, THEN conjunct2, THEN conjunct2,
      THEN conjunct2, THEN conjunct2, THEN conjunct2, THEN conjunct2, THEN conjunct1,
      THEN mp, OF r]
  note c4 = u [THEN conjunct2, THEN conjunct2, THEN conjunct1]
  have c5: "0 \<in> closedContexts (snd (disconnect (snd (connect (Rejected NotAllowedError) newService))))"
    using u [THEN conjunct2, THEN conjunct2, THEN conjunct2, THEN conjunct1] by (simp add: al)
  have c6: "1 \<in> closedContexts (snd (disconnect (snd (connect (Rejected NotAllowedError) newService))))"
    using u [THEN conjunct2, THEN conjunct2, THEN conjunct2, THEN conjunct2, THEN conjunct1] by (simp add: al)
  have c7: "outputNode (snd (disconnect (snd (connect (Rejected NotAllowedError) newService)))) = Some 2"
    using u [THEN conjunct2, THEN conjunct2, THEN conjunct2, THEN conjunct2, THEN conjunct2,
      THEN conjunct2, THEN conjunct2] by (simp add: al)
  show ?thesis
    apply (intro conjI)
    apply (rule r)
    apply (rule c1)
    apply (rule c2)
    apply (rule c3)
    apply (rule c4)
    apply (rule c5)
    apply (rule c6)
    apply (rule c7)
    done
qed

text \<open>
  C8 as stated fails in its last part: after a refused \<open>connect\<close> on a new service both
  contexts are in the fields and neither is closed.
\<close>

theorem microphone_denied_contexts_held_counterexample:
  "fst (connect (Rejected NotAllowedError) newService) = Some NotAllowedError
   \<and> inputAudioContext (snd (connect (Rejected NotAllowedError) newService)) = Some 0
   \<and> outputAudioContext (snd (connect (Rejected NotAllowedError) newService)) = Some 1
   \<and> 0 \<notin> closedContexts (snd (connect (Rejected NotAllowedError) newService))
   \<and> 1 \<notin> closedContexts (snd (connect (Rejected NotAllowedError) newService))"
  by (simp add: connect_def connect_resume_def connect_begin_def newService_def)

subsection \<open>C9\<close>

text \<open>
  C9. Only the first part of the model turn is read: the parts after it change nothing
  in what the handler does. A message adds at most one node to the store, and at most
  that node to the active set.
\<close>

theorem first_part_only:
  "handleServerMessage decode now
     \<lparr>serverContent = Some (sc\<lparr>modelTurn := Some (Content (Some (p # ps)))\<rparr>)\<rparr> s
   = handleServerMessage decode now
       \<lparr>serverContent = Some (sc\<lparr>modelTurn := Some (Content (Some [p]))\<rparr>)\<rparr> s
   \<and> length (nodes (handleServerMessage decode now m s)) \<le> length (nodes s) + 1
   \<and> take (length (nodes s)) (map buffer (nodes (handleServerMessage decode now m s)))
       = map buffer (nodes s)
   \<and> sources (handleServerMessage decode now m s) \<subseteq> insert (length (nodes s)) (sources s)"
proof -
  have a: "handleServerMessage decode now
     \<lparr>serverContent = Some (sc\<lparr>modelTurn := Some (Content (Some (p # ps)))\<rparr>)\<rparr> s
   = handleServerMessage decode now
       \<lparr>serverContent = Some (sc\<lparr>modelTurn := Some (Content (Some [p]))\<rparr>)\<rparr> s"
  proof (rule handleServerMessage_cong)
    show "transcriptions \<lparr>serverContent = Some (sc\<lparr>modelTurn := Some (Content (Some (p # ps)))\<rparr>)\<rparr>
        = transcriptions \<lparr>serverContent = Some (sc\<lparr>modelTurn := Some (Content (Some [p]))\<rparr>)\<rparr>"
      by (auto simp: transcriptions_def fun_eq_iff Let_def split: option.splits)
    show "base64Audio \<lparr>serverContent = Some (sc\<lparr>modelTurn := Some (Content (Some (p # ps)))\<rparr>)\<rparr>
        = base64Audio \<lparr>serverContent = Some (sc\<lparr>modelTurn := Some (Content (Some [p]))\<rparr>)\<rparr>"
      by (simp add: base64Audio_def)
    show "isInterrupted \<lparr>serverContent = Some (sc\<lparr>modelTurn := Some (Content (Some (p # ps)))\<rparr>)\<rparr>
        = isInterrupted \<lparr>serverContent = Some (sc\<lparr>modelTurn := Some (Content (Some [p]))\<rparr>)\<rparr>"
      by (simp add: isInterrupted_def)
  qed
  from handleServerMessage_body [of decode now m s] obtain X where
    X: "handleServerMessage decode now m s = handleInterruption m X"
      "sources X \<subseteq> insert (length (nodes s)) (sources s)"
      "take (length (nodes s)) (nodes X) = nodes s"
      "length (nodes X) \<le> length (nodes s) + 1"
    by blast
  have b: "length (nodes (handleServerMessage decode now m s)) \<le> length (nodes s) + 1"
    using X(4) by (simp add: X(1) handleInterruption_def)
  have mb: "map buffer (stopAll S ns) = map buffer ns" for S ns
    by (rule nth_equalityI) (simp_all add: nth_stopAll)
  have "take (length (nodes s)) (map buffer (nodes X)) = map buffer (nodes s)"
    using X(3) by (metis take_map)
  then have c: "take (length (nodes s)) (map buffer (nodes (handleServerMessage decode now m s)))
       = map buffer (nodes s)"
    by (simp add: X(1) handleInterruption_def mb)
  have d: "sources (handleServerMessage decode now m s) \<subseteq> insert (length (nodes s)) (sources s)"
    using X(2) by (simp add: X(1) handleInterruption_def)
  show ?thesis using a b c d by blast
qed

text \<open>
  A model turn whose first part carries no inline data and whose second part carries
  audio: nothing is enqueued.
\<close>

theorem first_part_only_witness:
  "handleServerMessage exampleDecode 1 (audioMessage [Part None, goodPart]) connectedService
   = handleServerMessage exampleDecode 1 (audioMessage [Part None]) connectedService
   \<and> nodes (handleServerMessage exampleDecode 1 (audioMessage [Part None, goodPart])
        connectedService) = []"
proof -
  have a: "handleServerMessage exampleDecode 1 (audioMessage [Part None, goodPart]) connectedService
   = handleServerMessage exampleDecode 1 (audioMessage [Part None]) connectedService"
    using first_part_only [where decode = exampleDecode and now = 1 and sc = emptyContent
        and p = "Part None" and ps = "[goodPart]" and s = connectedService, THEN conjunct1]
    by (simp add: audioMessage_def)
  have "base64Audio (audioMessage [Part None]) = None"
    by (simp add: base64Audio_def audioMessage_def emptyContent_def)
  then have "handleServerMessage exampleDecode 1 (audioMessage [Part None]) connectedService
      = connectedService"
    using handleServerMessage_skip [of "audioMessage [Part None]" connectedService exampleDecode 1]
    by (simp add: isInterrupted_audioMessage)
  then show ?thesis using a by (simp add: connectedService_eq)
qed

subsection \<open>C10\<close>

text \<open>
  C10. A fragment whose text is empty or only white space, arriving when no utterance of
  its speaker is pending, leaves the transcript as it was, whatever its finality flag.
\<close>

theorem blank_fragment_discarded:
  "trim t = [] \<Longrightarrow> \<not> pending u prev \<Longrightarrow> onMessage i d t u f prev = prev"
  by (auto simp: onMessage_def pending_def Let_def)

text \<open>A final fragment of a space and an ideographic space, with an empty transcript.\<close>

theorem blank_fragment_discarded_witness:
  "trim [0x20, 0x3000] = [] \<and> \<not> pending True []
   \<and> onMessage [0x31] 1 [0x20, 0x3000] True True [] = []"
proof -
  have h1: "trim [0x20, 0x3000] = []" by (simp add: trim_def isWhiteSpace_def)
  have h2: "\<not> pending True []" by (simp add: pending_def)
  show ?thesis using h1 h2 blank_fragment_discarded [OF h1 h2, of "[0x31]" 1 True] by simp
qed

end
